theory Spec2Isabelle
  imports Complex_Main
begin

text \<open>
  A shallow embedding of the Spotify client of this repository: the retry utility
  (\<^verbatim>\<open>retryWithBackoff\<close>), the error classes, and the \<^verbatim>\<open>SpotifyClient\<close> class with its
  response interceptor, OAuth token handling, paginated and batched calls. Asynchronous
  code is modelled sequentially: every \<^verbatim>\<open>await\<close> is a step that threads the state of the
  outside world. JavaScript numbers are modelled as unbounded integers, strings as lists
  of bytes, thrown exceptions as the \<open>Inl\<close> side of a sum. Not modelled: the loading of
  the configuration from the environment, \<^verbatim>\<open>createPlaylist\<close>, and console output.
\<close>

section \<open>Retry utility with exponential backoff (utils/retry)\<close>

text \<open>
  \<^verbatim>\<open>RetryOptions\<close>: four optional numeric fields. An absent field is \<open>None\<close>; the
  destructuring defaults of \<^verbatim>\<open>retryWithBackoff\<close> fill it in.
\<close>

record RetryOptions =
  maxRetries :: "int option"
  baseDelay :: "int option"
  maxDelay :: "int option"
  backoffFactor :: "int option"

definition no_options :: RetryOptions where
  "no_options = \<lparr>maxRetries = None, baseDelay = None, maxDelay = None, backoffFactor = None\<rparr>"

definition or_default :: "'a option \<Rightarrow> 'a \<Rightarrow> 'a" where
  "or_default x d = (case x of None \<Rightarrow> d | Some v \<Rightarrow> v)"

text \<open>
  \<^verbatim>\<open>Math.min(baseDelay * Math.pow(backoffFactor, attempt), maxDelay)\<close>
\<close>

definition backoff_delay :: "int \<Rightarrow> int \<Rightarrow> int \<Rightarrow> nat \<Rightarrow> int" where
  "backoff_delay base factor cap attempt = min (base * factor ^ attempt) cap"

text \<open>
  The \<^verbatim>\<open>for\<close> loop of \<^verbatim>\<open>retryWithBackoff\<close>. The operation is a state transformer
  on the world \<open>'s\<close> that fails with \<open>Inl\<close> or succeeds with \<open>Inr\<close>; \<open>sleep d\<close> is the
  effect of \<^verbatim>\<open>await new Promise(resolve => setTimeout(resolve, d))\<close>. The variable
  \<^verbatim>\<open>lastError\<close> is \<open>None\<close> while unassigned, so the final \<^verbatim>\<open>throw lastError!\<close> throws
  \<open>None\<close> (JavaScript's \<^verbatim>\<open>undefined\<close>) when the loop body never ran.
\<close>

function retry_loop ::
  "(int \<Rightarrow> 's \<Rightarrow> 's) \<Rightarrow> ('s \<Rightarrow> ('e + 'a) \<times> 's) \<Rightarrow> int \<Rightarrow> int \<Rightarrow> int \<Rightarrow> int \<Rightarrow>
   nat \<Rightarrow> 'e option \<Rightarrow> 's \<Rightarrow> ('e option + 'a) \<times> 's" where
  "retry_loop sleep operation maxR base cap factor attempt lastError s =
     (if int attempt \<le> maxR then
        (case fst (operation s) of
           Inr v \<Rightarrow> (Inr v, snd (operation s))
         | Inl error \<Rightarrow>
             (if int attempt = maxR then (Inl (Some error), snd (operation s))
              else retry_loop sleep operation maxR base cap factor (Suc attempt) (Some error)
                     (sleep (backoff_delay base factor cap attempt) (snd (operation s)))))
      else (Inl lastError, s))"
  by pat_completeness auto
termination
  by (relation "measure (\<lambda>(sleep, operation, maxR, base, cap, factor, attempt, lastError, s).
                   nat (maxR + 1 - int attempt))") auto

declare retry_loop.simps [simp del]

definition retryWithBackoff ::
  "(int \<Rightarrow> 's \<Rightarrow> 's) \<Rightarrow> ('s \<Rightarrow> ('e + 'a) \<times> 's) \<Rightarrow> RetryOptions \<Rightarrow> 's \<Rightarrow>
   ('e option + 'a) \<times> 's" where
  "retryWithBackoff sleep operation options s =
     retry_loop sleep operation
       (or_default (maxRetries options) 3)
       (or_default (baseDelay options) 1000)
       (or_default (maxDelay options) 10000)
       (or_default (backoffFactor options) 2)
       0 None s"

section \<open>Traces of the retry loop\<close>

text \<open>
  To observe what \<^verbatim>\<open>retryWithBackoff\<close> does with an arbitrary operation, the operation's
  state is paired with a trace: every invocation of the operation appends its outcome,
  every \<^verbatim>\<open>setTimeout\<close> wait appends its duration.
\<close>

datatype ('e, 'a) retry_event = Attempt "'e + 'a" | Wait int

definition traced_op ::
  "('s \<Rightarrow> ('e + 'a) \<times> 's) \<Rightarrow> 's \<times> ('e, 'a) retry_event list \<Rightarrow>
   ('e + 'a) \<times> 's \<times> ('e, 'a) retry_event list" where
  "traced_op operation st =
     (fst (operation (fst st)),
      (snd (operation (fst st)), snd st @ [Attempt (fst (operation (fst st)))]))"

definition traced_sleep ::
  "int \<Rightarrow> 's \<times> ('e, 'a) retry_event list \<Rightarrow> 's \<times> ('e, 'a) retry_event list" where
  "traced_sleep d st = (fst st, snd st @ [Wait d])"

text \<open>
  The trace of the failed attempts \<open>a, a + 1, \<dots>\<close> with errors \<open>es\<close>, each followed by
  its backoff wait.
\<close>

fun failed_rounds :: "int \<Rightarrow> int \<Rightarrow> int \<Rightarrow> nat \<Rightarrow> 'e list \<Rightarrow> ('e, 'a) retry_event list" where
  "failed_rounds base factor cap a [] = []"
| "failed_rounds base factor cap a (e # es) =
     Attempt (Inl e) # Wait (backoff_delay base factor cap a) #
     failed_rounds base factor cap (Suc a) es"

fun is_attempt :: "('e, 'a) retry_event \<Rightarrow> bool" where
  "is_attempt (Attempt r) = True"
| "is_attempt (Wait d) = False"

fun waits :: "('e, 'a) retry_event list \<Rightarrow> int list" where
  "waits [] = []"
| "waits (Attempt r # tr) = waits tr"
| "waits (Wait d # tr) = d # waits tr"

text \<open>An operation for the examples: the state counts the calls; the first \<open>k\<close> calls fail.\<close>

definition flaky :: "nat \<Rightarrow> nat \<Rightarrow> (string + nat) \<times> nat" where
  "flaky k n = (if n < k then Inl ''boom'' else Inr (10 * n), Suc n)"

section \<open>JavaScript values\<close>

text \<open>
  Response bodies are typed \<^verbatim>\<open>any\<close>; the code reads them with optional chaining, tests
  them for truthiness and hands them to the \<^verbatim>\<open>Error\<close> constructor. A body is a value as
  \<^verbatim>\<open>JSON.parse\<close> builds it: an object is the list of its members in the order of the
  text (of two members with the same name the later one counts), and it has no methods
  of its own. Numbers inside bodies are integers here, in the range where a double is
  exact and printed in plain decimal digits.
\<close>

datatype json =
    JUndefined
  | JNull
  | JBool bool
  | JNum int
  | JStr string
  | JArr "json list"
  | JObj "(string \<times> json) list"

fun truthy :: "json \<Rightarrow> bool" where
  "truthy JUndefined = False"
| "truthy JNull = False"
| "truthy (JBool b) = b"
| "truthy (JNum n) = (n \<noteq> 0)"
| "truthy (JStr s) = (s \<noteq> [])"
| "truthy (JArr xs) = True"
| "truthy (JObj kvs) = True"

text \<open>
  \<^verbatim>\<open>v?.k\<close> for the property names the client reads (\<^verbatim>\<open>error\<close>, \<^verbatim>\<open>message\<close>,
  \<^verbatim>\<open>error_description\<close>): only an object can have them.
\<close>

fun member_opt :: "json \<Rightarrow> string \<Rightarrow> json" where
  "member_opt (JObj kvs) k = (case map_of (rev kvs) k of Some v \<Rightarrow> v | None \<Rightarrow> JUndefined)"
| "member_opt v k = JUndefined"

text \<open>\<^verbatim>\<open>a || b\<close>\<close>

definition or_else :: "json \<Rightarrow> json \<Rightarrow> json" where
  "or_else a b = (if truthy a then a else b)"

text \<open>\<^verbatim>\<open>Array.prototype.join\<close> on strings.\<close>

fun join_with :: "string \<Rightarrow> string list \<Rightarrow> string" where
  "join_with sep [] = []"
| "join_with sep [x] = x"
| "join_with sep (x # y # ys) = x @ sep @ join_with sep (y # ys)"

text \<open>\<^verbatim>\<open>Number.prototype.toString\<close> on an integer: its decimal digits, with a sign.\<close>

function decimal :: "nat \<Rightarrow> string" where
  "decimal n =
     (if n < 10 then [''0123456789'' ! n]
      else decimal (n div 10) @ [''0123456789'' ! (n mod 10)])"
  by pat_completeness auto
termination
  by (relation "measure (\<lambda>n. n)") auto

declare decimal.simps [simp del]

definition Number_toString :: "int \<Rightarrow> string" where
  "Number_toString n = (if n < 0 then ''-'' @ decimal (nat (- n)) else decimal (nat n))"

text \<open>
  The conversion of a value to a string (\<^verbatim>\<open>ToString\<close>), which the \<^verbatim>\<open>Error\<close> constructor
  applies to its message; \<open>None\<close> is the \<^verbatim>\<open>TypeError\<close> it can throw. An array is joined
  with commas, \<^verbatim>\<open>null\<close> elements giving the empty string. A plain object gives
  \<^verbatim>\<open>[object Object]\<close> through the method it inherits, unless it has a member named
  \<^verbatim>\<open>toString\<close>: that member hides the inherited method, is not callable, and the
  inherited \<^verbatim>\<open>valueOf\<close> (or a member hiding it) yields no primitive, so the conversion
  throws.
\<close>

fun js_toString :: "json \<Rightarrow> string option"
  and js_elements :: "json list \<Rightarrow> string list option" where
  "js_toString JUndefined = Some ''undefined''"
| "js_toString JNull = Some ''null''"
| "js_toString (JBool b) = Some (if b then ''true'' else ''false'')"
| "js_toString (JNum n) = Some (Number_toString n)"
| "js_toString (JStr s) = Some s"
| "js_toString (JArr xs) =
     (case js_elements xs of None \<Rightarrow> None | Some parts \<Rightarrow> Some (join_with '','' parts))"
| "js_toString (JObj kvs) =
     (if ''toString'' \<in> set (map fst kvs) then None else Some ''[object Object]'')"
| "js_elements [] = Some []"
| "js_elements (x # xs) =
     (case (if x = JNull \<or> x = JUndefined then Some [] else js_toString x) of
        None \<Rightarrow> None
      | Some part \<Rightarrow>
          (case js_elements xs of None \<Rightarrow> None | Some parts \<Rightarrow> Some (part # parts)))"

text \<open>The result of \<^verbatim>\<open>parseInt\<close>: \<^verbatim>\<open>NaN\<close> or an integer.\<close>

datatype number = NaN | Num int

definition StrWhiteSpaceChar :: "char \<Rightarrow> bool" where
  "StrWhiteSpaceChar c =
     (c \<in> set [CHR 0x09, CHR 0x0A, CHR 0x0B, CHR 0x0C, CHR 0x0D, CHR 0x20, CHR 0xA0])"

definition is_digit :: "char \<Rightarrow> bool" where
  "is_digit c = (c \<in> set ''0123456789'')"

definition digit_value :: "char \<Rightarrow> int" where
  "digit_value c = int (of_char c) - 48"

text \<open>
  \<^verbatim>\<open>parseInt(string, 10)\<close>, following the steps of the language definition: strip leading
  white space, read an optional sign, take the longest prefix of decimal digits; no digit
  gives \<^verbatim>\<open>NaN\<close>.
\<close>

definition parseInt :: "string \<Rightarrow> number" where
  "parseInt string =
     (let S = dropWhile StrWhiteSpaceChar string;
          sign = (if S \<noteq> [] \<and> hd S = CHR ''-'' then - 1 else 1);
          S' = (if S \<noteq> [] \<and> (hd S = CHR ''+'' \<or> hd S = CHR ''-'') then tl S else S);
          Z = takeWhile is_digit S'
      in if Z = [] then NaN
         else Num (sign * foldl (\<lambda>n c. 10 * n + digit_value c) 0 Z))"

section \<open>Error classes (utils/errors) and the response interceptor\<close>

record AxiosResponse =
  status :: int
  headers :: "(string \<times> string) list"
  data :: json

text \<open>
  The rejection value the interceptor receives: \<^verbatim>\<open>error.response\<close> when the server
  answered, \<^verbatim>\<open>error.request\<close> (here: whether it is set) when a request was sent,
  \<^verbatim>\<open>error.message\<close>.
\<close>

record AxiosError =
  response :: "AxiosResponse option"
  request :: bool
  message :: string

text \<open>
  The thrown values. \<open>SpotifyAPIError message status response\<close>;
  \<open>AuthenticationError message\<close> has status 401 and \<open>RateLimitError message retryAfter\<close>
  has status 429 (both extend \<^verbatim>\<open>SpotifyAPIError\<close>); \<open>NetworkError message originalError\<close>;
  \<open>Error message\<close> is a plain \<^verbatim>\<open>Error\<close>; \<open>TypeError\<close> is the error of a failed string
  conversion; \<open>Foreign\<close> is a value thrown by another library and rethrown as it is.
  Every \<open>message\<close> is the string that \<^verbatim>\<open>Error\<close> stores.
\<close>

datatype failure =
    SpotifyAPIError string int json
  | AuthenticationError string
  | RateLimitError string "number option"
  | NetworkError string AxiosError
  | Error string
  | TypeError
  | Foreign string

fun failure_status :: "failure \<Rightarrow> int option" where
  "failure_status (SpotifyAPIError m s r) = Some s"
| "failure_status (AuthenticationError m) = Some 401"
| "failure_status (RateLimitError m h) = Some 429"
| "failure_status (NetworkError m e) = None"
| "failure_status (Error m) = None"
| "failure_status TypeError = None"
| "failure_status (Foreign x) = None"

text \<open>
  The constructors applied to a value of type \<^verbatim>\<open>any\<close>. \<^verbatim>\<open>super(message)\<close> reaches
  \<^verbatim>\<open>Error\<close>, which stores the string conversion of a message that is not
  \<^verbatim>\<open>undefined\<close> and no message (the empty string is read) otherwise; a conversion that
  throws makes the \<^verbatim>\<open>new\<close> expression throw. \<^verbatim>\<open>AuthenticationError\<close> has the default
  message "Authentication failed" for an \<^verbatim>\<open>undefined\<close> argument.
\<close>

definition new_SpotifyAPIError :: "json \<Rightarrow> int \<Rightarrow> json \<Rightarrow> failure" where
  "new_SpotifyAPIError msg code raw =
     (if msg = JUndefined then SpotifyAPIError [] code raw
      else (case js_toString msg of
              Some s \<Rightarrow> SpotifyAPIError s code raw
            | None \<Rightarrow> TypeError))"

definition new_AuthenticationError :: "json \<Rightarrow> failure" where
  "new_AuthenticationError msg =
     (if msg = JUndefined then AuthenticationError ''Authentication failed''
      else (case js_toString msg of
              Some s \<Rightarrow> AuthenticationError s
            | None \<Rightarrow> TypeError))"

text \<open>The rejection handler of \<^verbatim>\<open>httpClient.interceptors.response.use\<close>.\<close>

definition response_interceptor :: "AxiosError \<Rightarrow> failure" where
  "response_interceptor error =
     (case response error of
        Some r \<Rightarrow>
          (if status r = 401 then new_AuthenticationError (JStr ''Invalid or expired token'')
           else if status r = 429 then
             (let retryAfter = map_of (headers r) ''retry-after''
              in RateLimitError ''Rate limit exceeded''
                   (case retryAfter of
                      Some v \<Rightarrow> (if v \<noteq> [] then Some (parseInt v) else None)
                    | None \<Rightarrow> None))
           else new_SpotifyAPIError
                  (or_else (member_opt (member_opt (data r) ''error'') ''message'')
                           (JStr ''Spotify API error''))
                  (status r) (data r))
      | None \<Rightarrow>
          (if request error then NetworkError ''Network error'' error
           else Error (message error)))"

text \<open>Rejections for the examples: a response with a status, and a refused connection.\<close>

definition rejected :: "int \<Rightarrow> (string \<times> string) list \<Rightarrow> json \<Rightarrow> AxiosError" where
  "rejected st hs d =
     \<lparr>response = Some \<lparr>status = st, headers = hs, data = d\<rparr>, request = True,
      message = ''Request failed''\<rparr>"

definition connection_refused :: AxiosError where
  "connection_refused =
     \<lparr>response = None, request = True, message = ''connect ECONNREFUSED''\<rparr>"

section \<open>Models (models/auth, models/song) and the client's state\<close>

record TokenData =
  access_token :: string
  refresh_token :: "string option"
  token_type :: string
  expires_in :: int
  scope :: string

text \<open>\<^verbatim>\<open>AuthTokens\<close>: the token data and \<^verbatim>\<open>expires_at\<close>, in milliseconds since the epoch.\<close>

record AuthTokens = TokenData +
  expires_at :: int

record 't SpotifyTrackResponse =
  items :: "(string \<times> 't) list"
  "next" :: "string option"

record SpotifySettings =
  clientId :: string
  clientSecret :: string
  redirectUri :: string

record Config =
  spotify :: SpotifySettings

record SpotifyClient =
  config :: Config
  tokens :: "AuthTokens option"

definition isAuthenticated :: "SpotifyClient \<Rightarrow> bool" where
  "isAuthenticated c = (tokens c \<noteq> None)"

definition getTokens :: "SpotifyClient \<Rightarrow> AuthTokens option" where
  "getTokens c = tokens c"

definition setTokens :: "SpotifyClient \<Rightarrow> AuthTokens \<Rightarrow> SpotifyClient" where
  "setTokens c t = c\<lparr>tokens := Some t\<rparr>"

section \<open>The outside world\<close>

datatype http_verb = GET | POST

datatype payload = NoBody | UrisBody "string list"

text \<open>A request of \<^verbatim>\<open>httpClient\<close>: the path is relative to the base URL of the instance.\<close>

record http_request =
  verb :: http_verb
  url :: string
  authorization :: "string option"
  body :: payload

datatype post_failure = AxiosFailure AxiosError | OtherFailure string

text \<open>
  The remote services are functions of a state \<open>'w\<close> that the client cannot see: every
  call returns an outcome and the next state. \<open>now\<close> reads the clock (\<^verbatim>\<open>Date.now()\<close>),
  and \<open>elapse d\<close> is what happens to that state while the client waits \<open>d\<close>
  milliseconds. Each endpoint has the response type of its call site.
\<close>

record ('w, 't) services =
  saved_tracks :: "http_request \<Rightarrow> 'w \<Rightarrow> (AxiosError + 't SpotifyTrackResponse) \<times> 'w"
  several_tracks :: "http_request \<Rightarrow> 'w \<Rightarrow> (AxiosError + 't list) \<times> 'w"
  playlist_tracks :: "http_request \<Rightarrow> 'w \<Rightarrow> (AxiosError + json) \<times> 'w"
  token_endpoint :: "(string \<times> string) list \<Rightarrow> 'w \<Rightarrow> (post_failure + TokenData) \<times> 'w"
  now :: "'w \<Rightarrow> int"
  elapse :: "int \<Rightarrow> 'w \<Rightarrow> 'w"

text \<open>
  What the client did to the world, in order: requests sent through \<^verbatim>\<open>httpClient\<close>
  (after the request interceptor), form posts to the token endpoint, waits of the retry
  loop, and calls of \<^verbatim>\<open>refreshAccessToken\<close>.
\<close>

datatype event =
    Http http_request
  | TokenPost "(string \<times> string) list"
  | Sleep int
  | RefreshCall

record 'w world =
  events :: "event list"
  remote :: 'w

definition record_event :: "event \<Rightarrow> 'w world \<Rightarrow> 'w world" where
  "record_event e w = w\<lparr>events := events w @ [e]\<rparr>"

text \<open>The wait between two attempts of the retry loop, as the client's world sees it.\<close>

definition sleep_ms :: "('w, 't) services \<Rightarrow> int \<Rightarrow> 'w world \<Rightarrow> 'w world" where
  "sleep_ms S d w = (record_event (Sleep d) w)\<lparr>remote := elapse S d (remote w)\<rparr>"

text \<open>The request interceptor: attach the bearer token when tokens are stored.\<close>

definition request_interceptor :: "SpotifyClient \<Rightarrow> http_request \<Rightarrow> http_request" where
  "request_interceptor c req =
     (case tokens c of
        Some t \<Rightarrow> req\<lparr>authorization := Some (''Bearer '' @ access_token t)\<rparr>
      | None \<Rightarrow> req)"

text \<open>
  One call through \<^verbatim>\<open>httpClient\<close>: request interceptor, the remote endpoint, and the
  response interceptor on rejection.
\<close>

definition http_call ::
  "(http_request \<Rightarrow> 'w \<Rightarrow> (AxiosError + 'r) \<times> 'w) \<Rightarrow> SpotifyClient \<Rightarrow> http_request \<Rightarrow>
   'w world \<Rightarrow> (failure + 'r) \<times> 'w world" where
  "http_call endpoint c req w =
     (let sent = request_interceptor c req;
          out = endpoint sent (remote w)
      in (case fst out of
            Inr r \<Rightarrow> Inr r
          | Inl error \<Rightarrow> Inl (response_interceptor error),
          (record_event (Http sent) w)\<lparr>remote := snd out\<rparr>))"

text \<open>One \<^verbatim>\<open>axios.post\<close> of a form to the token endpoint (no interceptors).\<close>

definition token_post ::
  "('w, 't) services \<Rightarrow> (string \<times> string) list \<Rightarrow> 'w world \<Rightarrow>
   (post_failure + TokenData) \<times> 'w world" where
  "token_post S form w =
     (let out = token_endpoint S form (remote w)
      in (fst out, (record_event (TokenPost form) w)\<lparr>remote := snd out\<rparr>))"

section \<open>OAuth: authorization URL, code exchange, refresh\<close>

text \<open>
  \<^verbatim>\<open>URLSearchParams.prototype.toString\<close>: the \<^verbatim>\<open>application/x-www-form-urlencoded\<close>
  serializer. A byte is kept if it is an ASCII letter, a digit or one of \<^verbatim>\<open>* - . _\<close>, a
  space becomes \<^verbatim>\<open>+\<close>, every other byte is percent-encoded in upper-case hexadecimal.
\<close>

definition urlencoded_safe :: "char \<Rightarrow> bool" where
  "urlencoded_safe c =
     (c \<in> set ''ABCDEFGHIJKLMNOPQRSTUVWXYZabcdefghijklmnopqrstuvwxyz0123456789*-._'')"

definition hex_digit :: "nat \<Rightarrow> char" where
  "hex_digit n = ''0123456789ABCDEF'' ! (n mod 16)"

definition urlencode_byte :: "char \<Rightarrow> string" where
  "urlencode_byte c =
     (if c = CHR '' '' then ''+''
      else if urlencoded_safe c then [c]
      else [CHR ''%'', hex_digit (of_char c div 16), hex_digit (of_char c mod 16)])"

definition urlencode :: "string \<Rightarrow> string" where
  "urlencode s = concat (map urlencode_byte s)"

definition URLSearchParams_toString :: "(string \<times> string) list \<Rightarrow> string" where
  "URLSearchParams_toString params =
     join_with ''&'' (map (\<lambda>(k, v). urlencode k @ ''='' @ urlencode v) params)"

text \<open>
  \<^verbatim>\<open>generateAuthUrl(state?)\<close>. The spread \<^verbatim>\<open>...(state && { state })\<close> adds the entry only
  for a truthy \<^verbatim>\<open>state\<close>: an absent argument (\<open>None\<close>) and the empty string add nothing.
\<close>

definition auth_params :: "Config \<Rightarrow> string option \<Rightarrow> (string \<times> string) list" where
  "auth_params cfg state =
     [(''client_id'', clientId (spotify cfg)),
      (''response_type'', ''code''),
      (''redirect_uri'', redirectUri (spotify cfg)),
      (''scope'', ''user-library-read playlist-modify-public playlist-modify-private'')] @
     (case state of
        Some s \<Rightarrow> (if s \<noteq> [] then [(''state'', s)] else [])
      | None \<Rightarrow> [])"

definition generateAuthUrl :: "SpotifyClient \<Rightarrow> string option \<Rightarrow> string" where
  "generateAuthUrl c state =
     ''https://accounts.spotify.com/authorize?'' @
     URLSearchParams_toString (auth_params (config c) state)"

text \<open>\<^verbatim>\<open>error.response?.data?.error_description\<close>\<close>

definition error_description :: "AxiosError \<Rightarrow> json" where
  "error_description error =
     (case response error of
        None \<Rightarrow> JUndefined
      | Some r \<Rightarrow> member_opt (data r) ''error_description'')"

text \<open>The two form bodies (\<^verbatim>\<open>new URLSearchParams({...})\<close>) posted to the token endpoint.\<close>

definition authorization_code_form :: "SpotifyClient \<Rightarrow> string \<Rightarrow> (string \<times> string) list" where
  "authorization_code_form c code =
     [(''grant_type'', ''authorization_code''),
      (''code'', code),
      (''redirect_uri'', redirectUri (spotify (config c))),
      (''client_id'', clientId (spotify (config c))),
      (''client_secret'', clientSecret (spotify (config c)))]"

definition refresh_token_form :: "SpotifyClient \<Rightarrow> string \<Rightarrow> (string \<times> string) list" where
  "refresh_token_form c stored =
     [(''grant_type'', ''refresh_token''),
      (''refresh_token'', stored),
      (''client_id'', clientId (spotify (config c))),
      (''client_secret'', clientSecret (spotify (config c)))]"

text \<open>
  \<^verbatim>\<open>exchangeCodeForToken(code)\<close>. The result is the thrown failure or the returned tokens,
  with the client and the world after the call. The stored object is the response data
  with \<^verbatim>\<open>expires_at\<close> added, computed from the clock read after the response arrived.
\<close>

definition exchangeCodeForToken ::
  "('w, 't) services \<Rightarrow> SpotifyClient \<Rightarrow> string \<Rightarrow> 'w world \<Rightarrow>
   (failure + AuthTokens) \<times> SpotifyClient \<times> 'w world" where
  "exchangeCodeForToken S c code w =
     (let posted = token_post S (authorization_code_form c code) w;
          w' = snd posted
      in case fst posted of
           Inr tokenData \<Rightarrow>
             (let new_tokens =
                    \<lparr>access_token = access_token tokenData,
                     refresh_token = refresh_token tokenData,
                     token_type = token_type tokenData,
                     expires_in = expires_in tokenData,
                     scope = scope tokenData,
                     expires_at = now S (remote w') + expires_in tokenData * 1000\<rparr>
              in (Inr new_tokens, c\<lparr>tokens := Some new_tokens\<rparr>, w'))
         | Inl (AxiosFailure error) \<Rightarrow>
             (Inl (new_AuthenticationError
                     (or_else (error_description error) (JStr ''Token exchange failed''))),
              c, w')
         | Inl (OtherFailure x) \<Rightarrow> (Inl (Foreign x), c, w'))"

text \<open>
  \<^verbatim>\<open>refreshAccessToken()\<close>. \<^verbatim>\<open>!this.tokens?.refresh_token\<close> holds without tokens, without
  a refresh token, and for an empty refresh token. Every call is recorded in the world.
\<close>

definition refresh_with ::
  "('w, 't) services \<Rightarrow> SpotifyClient \<Rightarrow> AuthTokens \<Rightarrow> string \<Rightarrow> 'w world \<Rightarrow>
   (failure + string) \<times> SpotifyClient \<times> 'w world" where
  "refresh_with S c t stored w =
     (let posted = token_post S (refresh_token_form c stored) w;
          w' = snd posted
      in case fst posted of
           Inr tokenData \<Rightarrow>
             (let new_tokens =
                    t\<lparr>access_token := access_token tokenData,
                      expires_at := now S (remote w') + expires_in tokenData * 1000\<rparr>
              in (Inr (access_token new_tokens), c\<lparr>tokens := Some new_tokens\<rparr>, w'))
         | Inl (AxiosFailure error) \<Rightarrow>
             (Inl (new_AuthenticationError
                     (or_else (error_description error) (JStr ''Token refresh failed''))),
              c, w')
         | Inl (OtherFailure x) \<Rightarrow> (Inl (Foreign x), c, w'))"

definition refreshAccessToken ::
  "('w, 't) services \<Rightarrow> SpotifyClient \<Rightarrow> 'w world \<Rightarrow>
   (failure + string) \<times> SpotifyClient \<times> 'w world" where
  "refreshAccessToken S c w0 =
     (let w = record_event RefreshCall w0;
          no_refresh_token =
            (Inl (new_AuthenticationError (JStr ''No refresh token available'')), c, w)
      in case tokens c of
           None \<Rightarrow> no_refresh_token
         | Some t \<Rightarrow>
             (case refresh_token t of
                None \<Rightarrow> no_refresh_token
              | Some stored \<Rightarrow>
                  (if stored = [] then no_refresh_token else refresh_with S c t stored w)))"

text \<open>\<^verbatim>\<open>ensureValidToken()\<close>\<close>

definition ensureValidToken ::
  "('w, 't) services \<Rightarrow> SpotifyClient \<Rightarrow> 'w world \<Rightarrow>
   (failure + unit) \<times> SpotifyClient \<times> 'w world" where
  "ensureValidToken S c w =
     (case tokens c of
        None \<Rightarrow> (Inl (new_AuthenticationError (JStr ''Not authenticated'')), c, w)
      | Some t \<Rightarrow>
          (let fiveMinutesFromNow = now S (remote w) + 5 * 60 * 1000
           in if expires_at t \<le> fiveMinutesFromNow
              then (case fst (refreshAccessToken S c w) of
                      Inl e \<Rightarrow> (Inl e, snd (refreshAccessToken S c w))
                    | Inr new_access_token \<Rightarrow> (Inr (), snd (refreshAccessToken S c w)))
              else (Inr (), c, w)))"

definition refresh_calls :: "'w world \<Rightarrow> nat" where
  "refresh_calls w = length (filter (\<lambda>e. e = RefreshCall) (events w))"

fun is_TokenPost :: "event \<Rightarrow> bool" where
  "is_TokenPost (TokenPost form) = True"
| "is_TokenPost e = False"

fun is_Http :: "event \<Rightarrow> bool" where
  "is_Http (Http r) = True"
| "is_Http e = False"

definition network_calls :: "'w world \<Rightarrow> nat" where
  "network_calls w = length (filter (\<lambda>e. is_TokenPost e \<or> is_Http e) (events w))"

section \<open>Catalog operations\<close>

text \<open>
  \<^verbatim>\<open>String.prototype.replace\<close> with a string pattern: the first occurrence is replaced.
\<close>

fun replace_first :: "string \<Rightarrow> string \<Rightarrow> string \<Rightarrow> string" where
  "replace_first pat rep [] = (if pat = [] then rep else [])"
| "replace_first pat rep (x # xs) =
     (if take (length pat) (x # xs) = pat then rep @ drop (length pat) (x # xs)
      else x # replace_first pat rep xs)"

text \<open>\<^verbatim>\<open>data.next ? data.next.replace("https://api.spotify.com/v1", "") : null\<close>\<close>

definition next_url :: "'t SpotifyTrackResponse \<Rightarrow> string option" where
  "next_url page =
     (case next page of
        Some n \<Rightarrow> (if n \<noteq> [] then Some (replace_first ''https://api.spotify.com/v1'' [] n) else None)
      | None \<Rightarrow> None)"

definition get_request :: "string \<Rightarrow> http_request" where
  "get_request path = \<lparr>verb = GET, url = path, authorization = None, body = NoBody\<rparr>"

text \<open>
  \<^verbatim>\<open>retryWithBackoff(async () => this.httpClient.get<SpotifyTrackResponse>(nextUrl))\<close> with the
  default options.
\<close>

definition get_page ::
  "('w, 't) services \<Rightarrow> SpotifyClient \<Rightarrow> string \<Rightarrow> 'w world \<Rightarrow>
   (failure option + 't SpotifyTrackResponse) \<times> 'w world" where
  "get_page S c path w =
     retryWithBackoff (sleep_ms S) (http_call (saved_tracks S) c (get_request path)) no_options w"

text \<open>
  The \<^verbatim>\<open>while (nextUrl)\<close> loop of \<^verbatim>\<open>getLikedSongs\<close>; it ends for \<^verbatim>\<open>null\<close> and for the
  empty string. The server decides how many pages there are, so the loop need not end:
  \<open>None\<close> is a run that never returns.
\<close>

partial_function (option) liked_songs_loop ::
  "('w, 't) services \<Rightarrow> SpotifyClient \<Rightarrow> string option \<Rightarrow> 't list \<Rightarrow> 'w world \<Rightarrow>
   ((failure option + 't list) \<times> 'w world) option" where
  "liked_songs_loop S c nextUrl allSongs w =
     (case nextUrl of
        None \<Rightarrow> Some (Inr allSongs, w)
      | Some path \<Rightarrow>
          (if path = [] then Some (Inr allSongs, w)
           else (case fst (get_page S c path w) of
                   Inl e \<Rightarrow> Some (Inl e, snd (get_page S c path w))
                 | Inr page \<Rightarrow>
                     liked_songs_loop S c (next_url page)
                       (allSongs @ map snd (items page)) (snd (get_page S c path w)))))"

declare liked_songs_loop.simps [code]

definition getLikedSongs ::
  "('w, 't) services \<Rightarrow> SpotifyClient \<Rightarrow> 'w world \<Rightarrow>
   ((failure option + 't list) \<times> SpotifyClient \<times> 'w world) option" where
  "getLikedSongs S c w =
     (case fst (ensureValidToken S c w) of
        Inl e \<Rightarrow> Some (Inl (Some e), snd (ensureValidToken S c w))
      | Inr u \<Rightarrow>
          (let c' = fst (snd (ensureValidToken S c w));
               w' = snd (snd (ensureValidToken S c w))
           in case liked_songs_loop S c' (Some ''/me/tracks?limit=50'') [] w' of
                None \<Rightarrow> None
              | Some out \<Rightarrow> Some (fst out, c', snd out)))"

text \<open>
  The batching loops: \<^verbatim>\<open>for (let i = 0; i < xs.length; i += 50) batches.push(xs.slice(i, i + 50))\<close>
  and the same with 100.
\<close>

function batches50 :: "nat \<Rightarrow> 'a list \<Rightarrow> 'a list list" where
  "batches50 i xs =
     (if i < length xs then take 50 (drop i xs) # batches50 (i + 50) xs else [])"
  by pat_completeness auto
termination
  by (relation "measure (\<lambda>(i, xs). length xs - i)") auto

declare batches50.simps [simp del]

function batches100 :: "nat \<Rightarrow> 'a list \<Rightarrow> 'a list list" where
  "batches100 i xs =
     (if i < length xs then take 100 (drop i xs) # batches100 (i + 100) xs else [])"
  by pat_completeness auto
termination
  by (relation "measure (\<lambda>(i, xs). length xs - i)") auto

declare batches100.simps [simp del]

text \<open>
  \<^verbatim>\<open>retryWithBackoff(async () => this.httpClient.get(`/tracks?ids=${batch.join(",")}`))\<close>;
  the value is \<^verbatim>\<open>response.data.tracks\<close>.
\<close>

definition get_tracks ::
  "('w, 't) services \<Rightarrow> SpotifyClient \<Rightarrow> string list \<Rightarrow> 'w world \<Rightarrow>
   (failure option + 't list) \<times> 'w world" where
  "get_tracks S c batch w =
     retryWithBackoff (sleep_ms S)
       (http_call (several_tracks S) c (get_request (''/tracks?ids='' @ join_with '','' batch)))
       no_options w"

text \<open>The \<^verbatim>\<open>for (const batch of batches)\<close> loop of \<^verbatim>\<open>getTrackDetails\<close>.\<close>

fun fetch_batches ::
  "('w, 't) services \<Rightarrow> SpotifyClient \<Rightarrow> string list list \<Rightarrow> 't list \<Rightarrow> 'w world \<Rightarrow>
   (failure option + 't list) \<times> 'w world" where
  "fetch_batches S c [] allTracks w = (Inr allTracks, w)"
| "fetch_batches S c (batch # rest) allTracks w =
     (case fst (get_tracks S c batch w) of
        Inl e \<Rightarrow> (Inl e, snd (get_tracks S c batch w))
      | Inr tracks \<Rightarrow> fetch_batches S c rest (allTracks @ tracks) (snd (get_tracks S c batch w)))"

definition getTrackDetails ::
  "('w, 't) services \<Rightarrow> SpotifyClient \<Rightarrow> string list \<Rightarrow> 'w world \<Rightarrow>
   (failure option + 't list) \<times> SpotifyClient \<times> 'w world" where
  "getTrackDetails S c trackIds w =
     (case fst (ensureValidToken S c w) of
        Inl e \<Rightarrow> (Inl (Some e), snd (ensureValidToken S c w))
      | Inr u \<Rightarrow>
          (let c' = fst (snd (ensureValidToken S c w));
               w' = snd (snd (ensureValidToken S c w));
               out = fetch_batches S c' (batches50 0 trackIds) [] w'
           in (fst out, c', snd out)))"

text \<open>
  \<^verbatim>\<open>retryWithBackoff(async () => this.httpClient.post(`/playlists/${playlistId}/tracks`, { uris: batch }))\<close>
\<close>

definition post_tracks ::
  "('w, 't) services \<Rightarrow> SpotifyClient \<Rightarrow> string \<Rightarrow> string list \<Rightarrow> 'w world \<Rightarrow>
   (failure option + json) \<times> 'w world" where
  "post_tracks S c playlistId batch w =
     retryWithBackoff (sleep_ms S)
       (http_call (playlist_tracks S) c
          \<lparr>verb = POST, url = ''/playlists/'' @ playlistId @ ''/tracks'', authorization = None,
           body = UrisBody batch\<rparr>)
       no_options w"

text \<open>The loop of \<^verbatim>\<open>addTracksToPlaylist\<close>; the responses are dropped.\<close>

fun add_batches ::
  "('w, 't) services \<Rightarrow> SpotifyClient \<Rightarrow> string \<Rightarrow> string list list \<Rightarrow> 'w world \<Rightarrow>
   (failure option + unit) \<times> 'w world" where
  "add_batches S c playlistId [] w = (Inr (), w)"
| "add_batches S c playlistId (batch # rest) w =
     (case fst (post_tracks S c playlistId batch w) of
        Inl e \<Rightarrow> (Inl e, snd (post_tracks S c playlistId batch w))
      | Inr r \<Rightarrow> add_batches S c playlistId rest (snd (post_tracks S c playlistId batch w)))"

definition addTracksToPlaylist ::
  "('w, 't) services \<Rightarrow> SpotifyClient \<Rightarrow> string \<Rightarrow> string list \<Rightarrow> 'w world \<Rightarrow>
   (failure option + unit) \<times> SpotifyClient \<times> 'w world" where
  "addTracksToPlaylist S c playlistId trackUris w =
     (case fst (ensureValidToken S c w) of
        Inl e \<Rightarrow> (Inl (Some e), snd (ensureValidToken S c w))
      | Inr u \<Rightarrow>
          (let c' = fst (snd (ensureValidToken S c w));
               w' = snd (snd (ensureValidToken S c w));
               out = add_batches S c' playlistId (batches100 0 trackUris) w'
           in (fst out, c', snd out)))"

section \<open>Runs of a sequence of requests\<close>

text \<open>
  \<open>serves run bs w rs w'\<close>: starting in the world \<open>w\<close>, the requests \<open>run b\<close> for the
  \<open>b\<close> of \<open>bs\<close>, made one after the other in this order, all succeed; \<open>rs\<close> are their
  results and \<open>w'\<close> is the world after the last one.
\<close>

fun serves ::
  "('b \<Rightarrow> 'v \<Rightarrow> ('e + 'r) \<times> 'v) \<Rightarrow> 'b list \<Rightarrow> 'v \<Rightarrow> 'r list \<Rightarrow> 'v \<Rightarrow> bool" where
  "serves run [] w rs w' = (rs = [] \<and> w' = w)"
| "serves run (b # bs) w [] w' = False"
| "serves run (b # bs) w (r # rs) w' =
     (fst (run b w) = Inr r \<and> serves run bs (snd (run b w)) rs w')"

text \<open>
  \<open>answers_pages endpoint c path r pages\<close>: asked for \<open>path\<close> in its state \<open>r\<close>, and then
  for the stripped \<^verbatim>\<open>next\<close> of each page it returns, the server answers every request with
  a page, these are \<open>pages\<close>, and the last one has no further page.
\<close>

fun answers_pages ::
  "(http_request \<Rightarrow> 'w \<Rightarrow> (AxiosError + 't SpotifyTrackResponse) \<times> 'w) \<Rightarrow> SpotifyClient \<Rightarrow>
   string \<Rightarrow> 'w \<Rightarrow> 't SpotifyTrackResponse list \<Rightarrow> bool" where
  "answers_pages endpoint c path r [] = False"
| "answers_pages endpoint c path r [p] =
     (path \<noteq> [] \<and>
      fst (endpoint (request_interceptor c (get_request path)) r) = Inr p \<and>
      (next_url p = None \<or> next_url p = Some []))"
| "answers_pages endpoint c path r (p # q # ps) =
     (path \<noteq> [] \<and>
      fst (endpoint (request_interceptor c (get_request path)) r) = Inr p \<and>
      (case next_url p of
         None \<Rightarrow> False
       | Some u \<Rightarrow> u \<noteq> [] \<and>
           answers_pages endpoint c u
             (snd (endpoint (request_interceptor c (get_request path)) r)) (q # ps)))"

text \<open>
  \<open>fetches_pages S c path w pages w'\<close>: the same run seen through the retried requests
  of the client, whatever attempts each of them needed: starting in the world \<open>w\<close>, the
  retried request for \<open>path\<close> and then for each stripped \<^verbatim>\<open>next\<close> yields a page, these are
  \<open>pages\<close>, the last one has no further page, and \<open>w'\<close> is the world after it.
\<close>

fun fetches_pages ::
  "('w, 't) services \<Rightarrow> SpotifyClient \<Rightarrow> string \<Rightarrow> 'w world \<Rightarrow>
   't SpotifyTrackResponse list \<Rightarrow> 'w world \<Rightarrow> bool" where
  "fetches_pages S c path w [] w' = False"
| "fetches_pages S c path w [p] w' =
     (path \<noteq> [] \<and> get_page S c path w = (Inr p, w') \<and>
      (next_url p = None \<or> next_url p = Some []))"
| "fetches_pages S c path w (p # q # ps) w' =
     (path \<noteq> [] \<and> fst (get_page S c path w) = Inr p \<and>
      (case next_url p of
         None \<Rightarrow> False
       | Some u \<Rightarrow> u \<noteq> [] \<and> fetches_pages S c u (snd (get_page S c path w)) (q # ps) w'))"

text \<open>The request for a page as it leaves the client, after the request interceptor.\<close>

definition page_request :: "SpotifyClient \<Rightarrow> string \<Rightarrow> http_request" where
  "page_request c path = request_interceptor c (get_request path)"

text \<open>The paths requested after the first one: the stripped \<^verbatim>\<open>next\<close> of every page but the last.\<close>

fun following_paths :: "'t SpotifyTrackResponse list \<Rightarrow> string list" where
  "following_paths [] = []"
| "following_paths [p] = []"
| "following_paths (p # q # ps) =
     (case next_url p of Some u \<Rightarrow> u | None \<Rightarrow> []) # following_paths (q # ps)"

text \<open>The requests for a batch as they leave the client, after the request interceptor.\<close>

definition tracks_request :: "SpotifyClient \<Rightarrow> string list \<Rightarrow> http_request" where
  "tracks_request c batch =
     request_interceptor c (get_request (''/tracks?ids='' @ join_with '','' batch))"



text \<open>\<open>repeated ns xs\<close>: the first element \<open>ns ! 0\<close> times, then the second, and so on.\<close>

fun repeated :: "nat list \<Rightarrow> 'a list \<Rightarrow> 'a list" where
  "repeated (n # ns) (x # xs) = replicate n x @ repeated ns xs"
| "repeated ns xs = []"

text \<open>The state of the server after it answered the requests for \<open>paths\<close> in order.\<close>

fun after_requests ::
  "(http_request \<Rightarrow> 'w \<Rightarrow> (AxiosError + 'r) \<times> 'w) \<Rightarrow> http_request list \<Rightarrow> 'w \<Rightarrow> 'w" where
  "after_requests endpoint [] r = r"
| "after_requests endpoint (q # qs) r = after_requests endpoint qs (snd (endpoint q r))"

section \<open>Reading a URL back\<close>

text \<open>\<^verbatim>\<open>String.prototype.split\<close> with a one-character separator.\<close>

fun split_on :: "char \<Rightarrow> string \<Rightarrow> string list" where
  "split_on sep [] = [[]]"
| "split_on sep (x # xs) =
     (if x = sep then [] # split_on sep xs
      else (case split_on sep xs of
              ys # yss \<Rightarrow> (x # ys) # yss
            | [] \<Rightarrow> [[x]]))"

text \<open>
  The names of the query parameters of a URL: the text after the first \<^verbatim>\<open>?\<close>, split at
  \<^verbatim>\<open>&\<close>, each part up to its first \<^verbatim>\<open>=\<close>.
\<close>

definition query_keys :: "string \<Rightarrow> string list" where
  "query_keys u =
     map (takeWhile (\<lambda>c. c \<noteq> CHR ''=''))
       (split_on CHR ''&'' (drop 1 (dropWhile (\<lambda>c. c \<noteq> CHR ''?'') u)))"

section \<open>A small server for the examples\<close>

text \<open>
  The state of this server counts the calls it has answered; its clock advances by one
  second per call and not while the client waits. It serves two pages of saved tracks (two items, then one), one
  track per requested id, accepts track insertions unless a URI is \<^verbatim>\<open>bad\<close>, and issues
  tokens for the code \<^verbatim>\<open>AUTH_CODE\<close> and for every refresh (with a new refresh token).
\<close>

definition demo_page1 :: "string SpotifyTrackResponse" where
  "demo_page1 =
     \<lparr>items = [(''2023-01-15T10:30:00Z'', ''song1''), (''2023-01-16T08:00:00Z'', ''song2'')],
      next = Some ''https://api.spotify.com/v1/me/tracks?offset=2&limit=50''\<rparr>"

definition demo_page2 :: "string SpotifyTrackResponse" where
  "demo_page2 = \<lparr>items = [(''2023-01-17T09:15:00Z'', ''song3'')], next = None\<rparr>"

definition demo_token_data :: TokenData where
  "demo_token_data =
     \<lparr>access_token = ''A'', refresh_token = Some ''R'', token_type = ''Bearer'',
      expires_in = 3600, scope = ''x''\<rparr>"

definition demo_refreshed :: TokenData where
  "demo_refreshed =
     \<lparr>access_token = ''A2'', refresh_token = Some ''R2'', token_type = ''Bearer'',
      expires_in = 3600, scope = ''x''\<rparr>"

definition invalid_grant :: AxiosError where
  "invalid_grant =
     rejected 400 []
       (JObj [(''error'', JStr ''invalid_grant''),
              (''error_description'', JStr ''Invalid authorization code'')])"

definition demo :: "(nat, string) services" where
  "demo =
     \<lparr>saved_tracks = (\<lambda>req n.
        (if url req = ''/me/tracks?limit=50'' then Inr demo_page1
         else if url req = ''/me/tracks?offset=2&limit=50'' then Inr demo_page2
         else Inl (rejected 404 [] JNull), Suc n)),
      several_tracks = (\<lambda>req n.
        (Inr (map (\<lambda>i. ''track-'' @ i) (split_on CHR '','' (drop 12 (url req)))), Suc n)),
      playlist_tracks = (\<lambda>req n.
        (case body req of
           NoBody \<Rightarrow> Inl (rejected 400 [] JNull)
         | UrisBody batch \<Rightarrow>
             (if ''bad'' \<in> set batch then Inl (rejected 500 [] JNull)
              else Inr (JObj [(''snapshot_id'', JStr ''abc'')])), Suc n)),
      token_endpoint = (\<lambda>form n.
        (if map_of form ''grant_type'' = Some ''refresh_token'' then Inr demo_refreshed
         else if map_of form ''code'' = Some ''AUTH_CODE'' then Inr demo_token_data
         else Inl (AxiosFailure invalid_grant), Suc n)),
      now = (\<lambda>n. 1700000000000 + 1000 * int n),
      elapse = (\<lambda>d n. n)\<rparr>"

text \<open>The same server, except that the very first call it receives is answered with 503.\<close>

definition unsteady_demo :: "(nat, string) services" where
  "unsteady_demo =
     demo\<lparr>saved_tracks := (\<lambda>req n.
        if n = 0 then (Inl (rejected 503 [] JNull), Suc n) else saved_tracks demo req n)\<rparr>"

text \<open>The same server with a token endpoint that rejects every post with the given body.\<close>

definition refusing :: "json \<Rightarrow> (nat, string) services" where
  "refusing answer =
     demo\<lparr>token_endpoint := (\<lambda>form n. (Inl (AxiosFailure (rejected 400 [] answer)), Suc n))\<rparr>"

definition demo_config :: Config where
  "demo_config =
     \<lparr>spotify = \<lparr>clientId = ''my client'', clientSecret = ''s3cret'',
                 redirectUri = ''http://localhost:3000/callback''\<rparr>\<rparr>"

definition fresh_client :: SpotifyClient where
  "fresh_client = \<lparr>config = demo_config, tokens = None\<rparr>"

definition stored_tokens :: "int \<Rightarrow> AuthTokens" where
  "stored_tokens expiry =
     \<lparr>access_token = ''A'', refresh_token = Some ''R'', token_type = ''Bearer'',
      expires_in = 3600, scope = ''x'', expires_at = expiry\<rparr>"

definition client_with :: "AuthTokens \<Rightarrow> SpotifyClient" where
  "client_with t = \<lparr>config = demo_config, tokens = Some t\<rparr>"

definition start :: "nat world" where
  "start = \<lparr>events = [], remote = 0\<rparr>"

definition valid_client :: SpotifyClient where
  "valid_client = client_with (stored_tokens 1700000300001)"

text \<open>Fifty-one track ids; 201 track URIs of which the 101st is rejected by the server.\<close>

definition some_ids :: "string list" where
  "some_ids = replicate 50 ''a'' @ [''b'']"

definition some_uris :: "string list" where
  "some_uris = replicate 100 ''a'' @ [''bad''] @ replicate 100 ''d''"



text \<open>What the world recorded, by kind.\<close>

fun sent_requests :: "event list \<Rightarrow> http_request list" where
  "sent_requests [] = []"
| "sent_requests (Http r # es) = r # sent_requests es"
| "sent_requests (e # es) = sent_requests es"

fun sleeps :: "event list \<Rightarrow> int list" where
  "sleeps [] = []"
| "sleeps (Sleep d # es) = d # sleeps es"
| "sleeps (e # es) = sleeps es"

section \<open>The retry loop\<close>

lemma traced_op_fst: "fst (traced_op operation st) = fst (operation (fst st))"
  by (simp add: traced_op_def)

lemma traced_op_snd:
  "snd (traced_op operation st) =
     (snd (operation (fst st)), snd st @ [Attempt (fst (operation (fst st)))])"
  by (simp add: traced_op_def)

lemma traced_sleep_pair: "traced_sleep d (s, tr) = (s, tr @ [Wait d])"
  by (simp add: traced_sleep_def)

lemma retry_loop_success:
  "int a \<le> M \<Longrightarrow> fst (operation s) = Inr v \<Longrightarrow>
   retry_loop sleep operation M base cap factor a le s = (Inr v, snd (operation s))"
  by (subst retry_loop.simps) simp

lemma retry_loop_last:
  "int a = M \<Longrightarrow> fst (operation s) = Inl e \<Longrightarrow>
   retry_loop sleep operation M base cap factor a le s = (Inl (Some e), snd (operation s))"
  by (subst retry_loop.simps) simp

lemma retry_loop_again:
  "int a < M \<Longrightarrow> fst (operation s) = Inl e \<Longrightarrow>
   retry_loop sleep operation M base cap factor a le s =
     retry_loop sleep operation M base cap factor (Suc a) (Some e)
       (sleep (backoff_delay base factor cap a) (snd (operation s)))"
  by (subst retry_loop.simps) simp

lemma retry_loop_exit:
  "\<not> int a \<le> M \<Longrightarrow> retry_loop sleep operation M base cap factor a le s = (Inl le, s)"
  by (subst retry_loop.simps) simp

lemma retry_loop_trace:
  "int a \<le> M \<Longrightarrow>
   \<exists>es last. int (a + length es) \<le> M \<and>
     snd (snd (retry_loop traced_sleep (traced_op operation) M base cap factor a le (s, tr0))) =
       tr0 @ failed_rounds base factor cap a es @ [Attempt last] \<and>
     (case last of
        Inr v \<Rightarrow> fst (retry_loop traced_sleep (traced_op operation) M base cap factor a le (s, tr0)) = Inr v
      | Inl e \<Rightarrow> int (a + length es) = M \<and>
          fst (retry_loop traced_sleep (traced_op operation) M base cap factor a le (s, tr0)) = Inl (Some e))"
proof (induction "nat (M - int a)" arbitrary: a le s tr0)
  case 0
  then have aM: "int a = M" by simp
  show ?case
  proof (cases "fst (operation s)")
    case (Inl e)
    then have "fst (traced_op operation (s, tr0)) = Inl e" by (simp add: traced_op_fst)
    from retry_loop_last[where operation="traced_op operation" and s="(s, tr0)", OF aM this]
    show ?thesis using aM Inl
      by (intro exI[of _ "[]"] exI[of _ "Inl e"]) (simp add: traced_op_fst traced_op_snd)
  next
    case (Inr v)
    then have "fst (traced_op operation (s, tr0)) = Inr v" by (simp add: traced_op_fst)
    from retry_loop_success[where operation="traced_op operation" and s="(s, tr0)" and a=a and M=M, OF _ this]
    show ?thesis using aM Inr
      by (intro exI[of _ "[]"] exI[of _ "Inr v"]) (simp add: traced_op_fst traced_op_snd)
  qed
next
  case (Suc n)
  then have aM: "int a < M" by simp
  show ?case
  proof (cases "fst (operation s)")
    case (Inr v)
    then have "fst (traced_op operation (s, tr0)) = Inr v" by (simp add: traced_op_fst)
    from retry_loop_success[where operation="traced_op operation" and s="(s, tr0)" and a=a and M=M, OF _ this]
    show ?thesis using aM Inr
      by (intro exI[of _ "[]"] exI[of _ "Inr v"]) (simp add: traced_op_fst traced_op_snd)
  next
    case (Inl e)
    let ?s' = "snd (operation s)"
    let ?tr' = "tr0 @ [Attempt (Inl e), Wait (backoff_delay base factor cap a)]"
    have n: "n = nat (M - int (Suc a))" using Suc.hyps(2) by simp
    have le': "int (Suc a) \<le> M" using aM by simp
    from Suc.hyps(1)[OF n le', of "Some e" ?s' ?tr']
    obtain es last where
      b: "int (Suc a + length es) \<le> M" and
      t: "snd (snd (retry_loop traced_sleep (traced_op operation) M base cap factor (Suc a) (Some e) (?s', ?tr'))) =
           ?tr' @ failed_rounds base factor cap (Suc a) es @ [Attempt last]" and
      r: "(case last of
            Inr v \<Rightarrow> fst (retry_loop traced_sleep (traced_op operation) M base cap factor (Suc a) (Some e) (?s', ?tr')) = Inr v
          | Inl e' \<Rightarrow> int (Suc a + length es) = M \<and>
             fst (retry_loop traced_sleep (traced_op operation) M base cap factor (Suc a) (Some e) (?s', ?tr')) = Inl (Some e'))"
      by blast
    have step: "retry_loop traced_sleep (traced_op operation) M base cap factor a le (s, tr0) =
          retry_loop traced_sleep (traced_op operation) M base cap factor (Suc a) (Some e) (?s', ?tr')"
    proof -
      have "fst (traced_op operation (s, tr0)) = Inl e" using Inl by (simp add: traced_op_fst)
      from retry_loop_again[where operation="traced_op operation" and s="(s, tr0)", OF aM this] show ?thesis
        using Inl by (simp add: traced_op_fst traced_op_snd traced_sleep_pair)
    qed
    show ?thesis
      apply (rule exI[of _ "e # es"], rule exI[of _ last])
      using b t r by (simp add: step split: sum.splits)
  qed
qed

text \<open>
  With a negative number of retries the loop body never runs: the operation is not called
  and the unassigned \<^verbatim>\<open>lastError\<close> is thrown.
\<close>

lemma retryWithBackoff_negative_retries:
  "or_default (maxRetries options) 3 < 0 \<Longrightarrow>
   retryWithBackoff sleep operation options s = (Inl None, s)"
  by (simp add: retryWithBackoff_def retry_loop_exit)

lemma attempts_failed_rounds:
  "length (filter is_attempt (failed_rounds base factor cap a es)) = length es"
  by (induction es arbitrary: a) simp_all

lemma waits_append: "waits (tr @ tr') = waits tr @ waits tr'"
  by (induction tr rule: waits.induct) simp_all

lemma waits_failed_rounds:
  "waits (failed_rounds base factor cap a es) =
     map (backoff_delay base factor cap) [a ..< a + length es]"
proof (induction es arbitrary: a)
  case Nil
  show ?case by simp
next
  case (Cons e es)
  have "[a ..< a + length (e # es)] = a # [Suc a ..< Suc a + length es]"
    by (cases es) (simp_all add: upt_rec[of a] Suc_le_eq)
  with Cons show ?case by simp
qed

lemma default_delays: "map (backoff_delay 1000 2 10000) [0 ..< 3] = [1000, 2000, 4000]"
  by (simp add: backoff_delay_def upt_conv_Cons)

text \<open>
  Claim C1. For every operation, every starting state and every policy with a
  non-negative number of retries \<open>M\<close>, the trace of \<^verbatim>\<open>retryWithBackoff\<close> is: some
  number \<open>k \<le> M\<close> of failed attempts, the zero-based attempt \<open>i\<close> followed by a wait of
  \<open>min (baseDelay * backoffFactor ^ i) maxDelay\<close> milliseconds, and then one last attempt
  with nothing after it. If the last attempt succeeded, its value is the result (the
  first success is returned at once); if it failed, it was attempt \<open>M\<close> and its error is
  thrown unchanged. So the operation runs at most \<open>M + 1\<close> times, and with the default
  policy the waits are an initial segment of 1000, 2000, 4000.
\<close>

theorem retryWithBackoff_attempts_and_delays:
  assumes "0 \<le> or_default (maxRetries options) 3"
  shows "\<exists>es last.
     int (length es) \<le> or_default (maxRetries options) 3 \<and>
     snd (snd (retryWithBackoff traced_sleep (traced_op operation) options (s, []))) =
       failed_rounds (or_default (baseDelay options) 1000) (or_default (backoffFactor options) 2)
         (or_default (maxDelay options) 10000) 0 es @ [Attempt last] \<and>
     (case last of
        Inr v \<Rightarrow> fst (retryWithBackoff traced_sleep (traced_op operation) options (s, [])) = Inr v
      | Inl e \<Rightarrow> int (length es) = or_default (maxRetries options) 3 \<and>
          fst (retryWithBackoff traced_sleep (traced_op operation) options (s, [])) = Inl (Some e)) \<and>
     int (length (filter is_attempt
        (snd (snd (retryWithBackoff traced_sleep (traced_op operation) options (s, [])))))) \<le>
       or_default (maxRetries options) 3 + 1 \<and>
     waits (snd (snd (retryWithBackoff traced_sleep (traced_op operation) options (s, [])))) =
       map (\<lambda>i. min (or_default (baseDelay options) 1000 *
                       or_default (backoffFactor options) 2 ^ i)
                    (or_default (maxDelay options) 10000)) [0 ..< length es] \<and>
     (options = no_options \<longrightarrow>
        waits (snd (snd (retryWithBackoff traced_sleep (traced_op operation) options (s, [])))) =
          take (length es) [1000, 2000, 4000])"
proof -
  let ?M = "or_default (maxRetries options) 3"
  let ?b = "or_default (baseDelay options) 1000"
  let ?f = "or_default (backoffFactor options) 2"
  let ?c = "or_default (maxDelay options) 10000"
  let ?run = "retry_loop traced_sleep (traced_op operation) ?M ?b ?c ?f 0 None (s, [])"
  have run: "retryWithBackoff traced_sleep (traced_op operation) options (s, []) = ?run"
    by (simp add: retryWithBackoff_def)
  from assms have "int 0 \<le> ?M" by simp
  from retry_loop_trace[where operation=operation and base="?b" and factor="?f" and cap="?c"
      and le=None and s=s and ?tr0.0="[]", OF this]
  obtain es last where
    b0: "int (0 + length es) \<le> ?M" and
    t0: "snd (snd ?run) = [] @ failed_rounds ?b ?f ?c 0 es @ [Attempt last]" and
    r0: "(case last of Inr v \<Rightarrow> fst ?run = Inr v
         | Inl e \<Rightarrow> int (0 + length es) = ?M \<and> fst ?run = Inl (Some e))"
    by blast
  from b0 have b: "int (length es) \<le> ?M" by simp
  from t0 have t: "snd (snd ?run) = failed_rounds ?b ?f ?c 0 es @ [Attempt last]" by simp
  from r0 have r: "(case last of Inr v \<Rightarrow> fst ?run = Inr v
         | Inl e \<Rightarrow> int (length es) = ?M \<and> fst ?run = Inl (Some e))"
    by (cases last) simp_all
  have n: "int (length (filter is_attempt (snd (snd ?run)))) \<le> ?M + 1"
    using b by (simp add: t attempts_failed_rounds)
  have w: "waits (snd (snd ?run)) = map (\<lambda>i. min (?b * ?f ^ i) ?c) [0 ..< length es]"
    using waits_failed_rounds[of ?b ?f ?c 0 es]
    by (simp add: t waits_append backoff_delay_def[abs_def])
  have d: "options = no_options \<longrightarrow> waits (snd (snd ?run)) = take (length es) [1000, 2000, 4000]"
  proof
    assume o: "options = no_options"
    then have v: "?M = 3" "?b = 1000" "?f = 2" "?c = 10000"
      by (simp_all add: no_options_def or_default_def)
    with b have "length es \<le> 3" by simp
    then have "length es = 0 \<or> length es = 1 \<or> length es = 2 \<or> length es = 3" by arith
    moreover have "waits (snd (snd ?run)) = map (\<lambda>i. min (1000 * 2 ^ i) 10000) [0 ..< length es]"
      using w v by simp
    ultimately show "waits (snd (snd ?run)) = take (length es) [1000, 2000, 4000]"
      by (auto simp: upt_conv_Cons)
  qed
  show ?thesis
    apply (rule exI[of _ es], rule exI[of _ last])
    unfolding run using b t r n w d by simp
qed

theorem retryWithBackoff_attempts_and_delays_witness:
  "0 \<le> or_default (maxRetries no_options) 3 \<and>
   (\<exists>es last.
     int (length es) \<le> or_default (maxRetries no_options) 3 \<and>
     snd (snd (retryWithBackoff traced_sleep (traced_op (flaky 2)) no_options (0, []))) =
       failed_rounds (or_default (baseDelay no_options) 1000)
         (or_default (backoffFactor no_options) 2)
         (or_default (maxDelay no_options) 10000) 0 es @ [Attempt last] \<and>
     (case last of
        Inr v \<Rightarrow> fst (retryWithBackoff traced_sleep (traced_op (flaky 2)) no_options (0, [])) = Inr v
      | Inl e \<Rightarrow> int (length es) = or_default (maxRetries no_options) 3 \<and>
          fst (retryWithBackoff traced_sleep (traced_op (flaky 2)) no_options (0, [])) =
            Inl (Some e)) \<and>
     int (length (filter is_attempt
        (snd (snd (retryWithBackoff traced_sleep (traced_op (flaky 2)) no_options (0, [])))))) \<le>
       or_default (maxRetries no_options) 3 + 1 \<and>
     waits (snd (snd (retryWithBackoff traced_sleep (traced_op (flaky 2)) no_options (0, [])))) =
       map (\<lambda>i. min (or_default (baseDelay no_options) 1000 *
                       or_default (backoffFactor no_options) 2 ^ i)
                    (or_default (maxDelay no_options) 10000)) [0 ..< length es] \<and>
     (no_options = no_options \<longrightarrow>
        waits (snd (snd (retryWithBackoff traced_sleep (traced_op (flaky 2)) no_options (0, [])))) =
          take (length es) [1000, 2000, 4000])) \<and>
   (\<exists>es last.
     int (length es) \<le> or_default (maxRetries no_options) 3 \<and>
     snd (snd (retryWithBackoff traced_sleep (traced_op (flaky 9)) no_options (0, []))) =
       failed_rounds (or_default (baseDelay no_options) 1000)
         (or_default (backoffFactor no_options) 2)
         (or_default (maxDelay no_options) 10000) 0 es @ [Attempt last] \<and>
     (case last of
        Inr v \<Rightarrow> fst (retryWithBackoff traced_sleep (traced_op (flaky 9)) no_options (0, [])) = Inr v
      | Inl e \<Rightarrow> int (length es) = or_default (maxRetries no_options) 3 \<and>
          fst (retryWithBackoff traced_sleep (traced_op (flaky 9)) no_options (0, [])) =
            Inl (Some e)) \<and>
     int (length (filter is_attempt
        (snd (snd (retryWithBackoff traced_sleep (traced_op (flaky 9)) no_options (0, [])))))) \<le>
       or_default (maxRetries no_options) 3 + 1 \<and>
     waits (snd (snd (retryWithBackoff traced_sleep (traced_op (flaky 9)) no_options (0, [])))) =
       map (\<lambda>i. min (or_default (baseDelay no_options) 1000 *
                       or_default (backoffFactor no_options) 2 ^ i)
                    (or_default (maxDelay no_options) 10000)) [0 ..< length es] \<and>
     (no_options = no_options \<longrightarrow>
        waits (snd (snd (retryWithBackoff traced_sleep (traced_op (flaky 9)) no_options (0, [])))) =
          take (length es) [1000, 2000, 4000]))"
proof -
  have h: "0 \<le> or_default (maxRetries no_options) 3"
    by (simp add: no_options_def or_default_def)
  from retryWithBackoff_attempts_and_delays[OF h, of "flaky 2" 0]
       retryWithBackoff_attempts_and_delays[OF h, of "flaky 9" 0] h
  show ?thesis
    by (intro conjI)
qed

text \<open>
  Two runs with the default policy: an operation that fails twice and then succeeds, and
  one that always fails (four attempts, waits of 1000, 2000 and 4000 milliseconds, the
  last error thrown).
\<close>

lemma flaky_run:
  "retryWithBackoff traced_sleep (traced_op (flaky 2)) no_options (0, []) =
     (Inr 20, 3, [Attempt (Inl ''boom''), Wait 1000, Attempt (Inl ''boom''), Wait 2000, Attempt (Inr 20)])"
  by (simp add: retryWithBackoff_def no_options_def or_default_def retry_loop.simps
      traced_op_def traced_sleep_def flaky_def backoff_delay_def)

lemma flaky_run_fail:
  "retryWithBackoff traced_sleep (traced_op (flaky 9)) no_options (0, []) =
     (Inl (Some ''boom''), 4, [Attempt (Inl ''boom''), Wait 1000, Attempt (Inl ''boom''), Wait 2000,
        Attempt (Inl ''boom''), Wait 4000, Attempt (Inl ''boom'')])"
  by (simp add: retryWithBackoff_def no_options_def or_default_def retry_loop.simps
      traced_op_def traced_sleep_def flaky_def backoff_delay_def)

section \<open>The response interceptor\<close>

lemma parseInt_5: "parseInt ''5'' = Num 5"
  by (simp add: parseInt_def StrWhiteSpaceChar_def is_digit_def digit_value_def)

lemma parseInt_examples:
  "parseInt '' 120 seconds'' = Num 120" "parseInt ''-7'' = Num (- 7)" "parseInt ''soon'' = NaN"
  "parseInt '''' = NaN"
  by (simp_all add: parseInt_def StrWhiteSpaceChar_def is_digit_def digit_value_def)

lemma new_AuthenticationError_string: "new_AuthenticationError (JStr s) = AuthenticationError s"
  by (simp add: new_AuthenticationError_def)

lemma new_SpotifyAPIError_string: "new_SpotifyAPIError (JStr s) code raw = SpotifyAPIError s code raw"
  by (simp add: new_SpotifyAPIError_def)

lemma new_AuthenticationError_truthy:
  "truthy m \<Longrightarrow> js_toString m = Some s \<Longrightarrow> new_AuthenticationError m = AuthenticationError s"
  by (cases m) (simp_all add: new_AuthenticationError_def)

lemma new_SpotifyAPIError_truthy:
  "truthy m \<Longrightarrow> js_toString m = Some s \<Longrightarrow>
   new_SpotifyAPIError m code raw = SpotifyAPIError s code raw"
  by (cases m) (simp_all add: new_SpotifyAPIError_def)

lemma new_AuthenticationError_no_string:
  "truthy m \<Longrightarrow> js_toString m = None \<Longrightarrow> new_AuthenticationError m = TypeError"
  by (cases m) (simp_all add: new_AuthenticationError_def)

lemma new_SpotifyAPIError_no_string:
  "truthy m \<Longrightarrow> js_toString m = None \<Longrightarrow> new_SpotifyAPIError m code raw = TypeError"
  by (cases m) (simp_all add: new_SpotifyAPIError_def)

text \<open>The string conversion on some values.\<close>

lemma js_toString_examples:
  "js_toString (JNum 404) = Some ''404''" "js_toString (JNum (- 12)) = Some ''-12''"
  "js_toString (JBool True) = Some ''true''" "js_toString (JArr []) = Some []"
  "js_toString (JArr [JNum 1, JNull, JArr [JStr ''a'', JBool True], JObj []]) =
     Some ''1,,a,true,[object Object]''"
  "js_toString (JObj [(''toString'', JNum 1)]) = None"
  "js_toString (JArr [JObj [(''toString'', JNull)]]) = None"
  by code_simp+

text \<open>
  Claim C2, as stated, fails where the interceptor tests a value for truthiness and where
  a message is not a string: a 429 response whose \<^verbatim>\<open>retry-after\<close> header is present with
  an empty value carries no hint (not the parsed header, which would be \<^verbatim>\<open>NaN\<close>); a server
  message that is present but empty is replaced by the generic message; the message 404
  (a number) is carried as the string "404"; and for a message that has no string
  conversion the construction of the error throws a \<^verbatim>\<open>TypeError\<close>, which is none of the
  typed failures.
\<close>

theorem retry_after_present_but_empty_counterexample:
  "map_of (headers \<lparr>status = 429, headers = [(''retry-after'', [])], data = JNull\<rparr>)
     ''retry-after'' = Some [] \<and>
   response_interceptor (rejected 429 [(''retry-after'', [])] JNull) =
     RateLimitError ''Rate limit exceeded'' None \<and>
   response_interceptor (rejected 429 [(''retry-after'', [])] JNull) \<noteq>
     RateLimitError ''Rate limit exceeded'' (Some (parseInt [])) \<and>
   member_opt (member_opt (JObj [(''error'', JObj [(''message'', JStr [])])]) ''error'')
     ''message'' = JStr [] \<and>
   response_interceptor (rejected 500 [] (JObj [(''error'', JObj [(''message'', JStr [])])])) =
     SpotifyAPIError ''Spotify API error'' 500
       (JObj [(''error'', JObj [(''message'', JStr [])])]) \<and>
   response_interceptor (rejected 500 [] (JObj [(''error'', JObj [(''message'', JNum 404)])])) =
     SpotifyAPIError ''404'' 500 (JObj [(''error'', JObj [(''message'', JNum 404)])]) \<and>
   response_interceptor
     (rejected 500 [] (JObj [(''error'', JObj [(''message'', JObj [(''toString'', JNum 1)])])])) =
     TypeError"
  by code_simp

text \<open>
  Claim C2, amended. A rejection with a response is classified by its status: 401 gives
  \<^verbatim>\<open>AuthenticationError\<close>; 429 gives \<^verbatim>\<open>RateLimitError\<close> carrying \<^verbatim>\<open>parseInt\<close> of the
  \<^verbatim>\<open>retry-after\<close> header when the header is present and not empty, and no hint when it is
  absent or empty; every other status gives \<^verbatim>\<open>SpotifyAPIError\<close> with the status and the raw
  body, carrying the string conversion of the body's \<^verbatim>\<open>error.message\<close> when that message
  is truthy and has one (a non-empty string is carried as it is), and the generic message
  when the message is absent or falsy; a truthy message without a string conversion makes
  the construction throw a \<^verbatim>\<open>TypeError\<close> instead. A request that received no response gives
  \<^verbatim>\<open>NetworkError\<close> wrapping the rejection itself. (A rejection with neither a response nor
  a request, raised before anything was sent, is rethrown as a plain \<^verbatim>\<open>Error\<close> with its
  message.)
\<close>

theorem response_interceptor_classifies:
  "(response e = Some r \<longrightarrow>
      (status r = 401 \<longrightarrow>
         response_interceptor e = AuthenticationError ''Invalid or expired token'') \<and>
      (status r = 429 \<longrightarrow>
         (\<forall>v. map_of (headers r) ''retry-after'' = Some v \<and> v \<noteq> [] \<longrightarrow>
            response_interceptor e = RateLimitError ''Rate limit exceeded'' (Some (parseInt v))) \<and>
         (map_of (headers r) ''retry-after'' = None \<or> map_of (headers r) ''retry-after'' = Some [] \<longrightarrow>
            response_interceptor e = RateLimitError ''Rate limit exceeded'' None)) \<and>
      (status r \<noteq> 401 \<and> status r \<noteq> 429 \<longrightarrow>
         (\<forall>s. truthy (member_opt (member_opt (data r) ''error'') ''message'') \<and>
              js_toString (member_opt (member_opt (data r) ''error'') ''message'') = Some s \<longrightarrow>
            response_interceptor e = SpotifyAPIError s (status r) (data r)) \<and>
         (\<forall>s. member_opt (member_opt (data r) ''error'') ''message'' = JStr s \<and> s \<noteq> [] \<longrightarrow>
            response_interceptor e = SpotifyAPIError s (status r) (data r)) \<and>
         (\<not> truthy (member_opt (member_opt (data r) ''error'') ''message'') \<longrightarrow>
            response_interceptor e =
              SpotifyAPIError ''Spotify API error'' (status r) (data r)) \<and>
         (truthy (member_opt (member_opt (data r) ''error'') ''message'') \<and>
          js_toString (member_opt (member_opt (data r) ''error'') ''message'') = None \<longrightarrow>
            response_interceptor e = TypeError))) \<and>
   (response e = None \<and> request e \<longrightarrow>
      response_interceptor e = NetworkError ''Network error'' e) \<and>
   (response e = None \<and> \<not> request e \<longrightarrow>
      response_interceptor e = Error (message e))"
proof -
  let ?m = "member_opt (member_opt (data r) ''error'') ''message''"
  have a: "response e = Some r \<Longrightarrow> status r = 401 \<Longrightarrow>
      response_interceptor e = AuthenticationError ''Invalid or expired token''"
    by (simp add: response_interceptor_def new_AuthenticationError_string)
  have b: "response e = Some r \<Longrightarrow> status r = 429 \<Longrightarrow>
      map_of (headers r) ''retry-after'' = Some v \<Longrightarrow> v \<noteq> [] \<Longrightarrow>
      response_interceptor e = RateLimitError ''Rate limit exceeded'' (Some (parseInt v))" for v
    by (simp add: response_interceptor_def)
  have c: "response e = Some r \<Longrightarrow> status r = 429 \<Longrightarrow>
      map_of (headers r) ''retry-after'' = None \<or> map_of (headers r) ''retry-after'' = Some [] \<Longrightarrow>
      response_interceptor e = RateLimitError ''Rate limit exceeded'' None"
    by (auto simp: response_interceptor_def)
  have d: "response e = Some r \<Longrightarrow> status r \<noteq> 401 \<Longrightarrow> status r \<noteq> 429 \<Longrightarrow>
      truthy ?m \<Longrightarrow> js_toString ?m = Some s \<Longrightarrow>
      response_interceptor e = SpotifyAPIError s (status r) (data r)" for s
    by (simp add: response_interceptor_def or_else_def new_SpotifyAPIError_truthy)
  have d': "response e = Some r \<Longrightarrow> status r \<noteq> 401 \<Longrightarrow> status r \<noteq> 429 \<Longrightarrow>
      ?m = JStr s \<Longrightarrow> s \<noteq> [] \<Longrightarrow>
      response_interceptor e = SpotifyAPIError s (status r) (data r)" for s
    using d[of s] by simp
  have f: "response e = Some r \<Longrightarrow> status r \<noteq> 401 \<Longrightarrow> status r \<noteq> 429 \<Longrightarrow>
      \<not> truthy ?m \<Longrightarrow>
      response_interceptor e = SpotifyAPIError ''Spotify API error'' (status r) (data r)"
    by (simp add: response_interceptor_def or_else_def new_SpotifyAPIError_string)
  have f': "response e = Some r \<Longrightarrow> status r \<noteq> 401 \<Longrightarrow> status r \<noteq> 429 \<Longrightarrow>
      truthy ?m \<Longrightarrow> js_toString ?m = None \<Longrightarrow> response_interceptor e = TypeError"
    by (simp add: response_interceptor_def or_else_def new_SpotifyAPIError_no_string)
  have g: "response e = None \<Longrightarrow> request e \<Longrightarrow>
      response_interceptor e = NetworkError ''Network error'' e"
    by (simp add: response_interceptor_def)
  have h: "response e = None \<Longrightarrow> \<not> request e \<Longrightarrow> response_interceptor e = Error (message e)"
    by (simp add: response_interceptor_def)
  from a b c d d' f f' g h show ?thesis by blast
qed

theorem response_interceptor_classifies_witness:
  "response_interceptor (rejected 401 [] JNull) =
     AuthenticationError ''Invalid or expired token'' \<and>
   response_interceptor (rejected 429 [(''retry-after'', ''5'')] JNull) =
     RateLimitError ''Rate limit exceeded'' (Some (Num 5)) \<and>
   response_interceptor (rejected 429 [(''content-type'', ''text/plain'')] JNull) =
     RateLimitError ''Rate limit exceeded'' None \<and>
   response_interceptor
     (rejected 404 [] (JObj [(''error'', JObj [(''status'', JNum 404), (''message'', JStr ''Not found'')])])) =
     SpotifyAPIError ''Not found'' 404
       (JObj [(''error'', JObj [(''status'', JNum 404), (''message'', JStr ''Not found'')])]) \<and>
   response_interceptor (rejected 400 [] (JObj [(''error'', JObj [(''message'', JNum 17)])])) =
     SpotifyAPIError ''17'' 400 (JObj [(''error'', JObj [(''message'', JNum 17)])]) \<and>
   response_interceptor (rejected 502 [] (JStr ''Bad Gateway'')) =
     SpotifyAPIError ''Spotify API error'' 502 (JStr ''Bad Gateway'') \<and>
   response_interceptor
     (rejected 503 [] (JObj [(''error'', JObj [(''message'', JArr [JObj [(''toString'', JNull)]])])])) =
     TypeError \<and>
   response_interceptor connection_refused = NetworkError ''Network error'' connection_refused \<and>
   response_interceptor \<lparr>response = None, request = False, message = ''Invalid URL''\<rparr> =
     Error ''Invalid URL''"
proof -
  let ?r1 = "\<lparr>status = 401, headers = [], data = JNull\<rparr>"
  let ?r2 = "\<lparr>status = 429, headers = [(''retry-after'', ''5'')], data = JNull\<rparr>"
  let ?r3 = "\<lparr>status = 429, headers = [(''content-type'', ''text/plain'')], data = JNull\<rparr>"
  let ?d4 = "JObj [(''error'', JObj [(''status'', JNum 404), (''message'', JStr ''Not found'')])]"
  let ?r4 = "\<lparr>status = 404, headers = [], data = ?d4\<rparr>"
  let ?r5 = "\<lparr>status = 502, headers = [], data = JStr ''Bad Gateway''\<rparr>"
  let ?d7 = "JObj [(''error'', JObj [(''message'', JNum 17)])]"
  let ?r7 = "\<lparr>status = 400, headers = [], data = ?d7\<rparr>"
  have 1: "response_interceptor (rejected 401 [] JNull) =
     AuthenticationError ''Invalid or expired token''"
    using response_interceptor_classifies[of "rejected 401 [] JNull" ?r1]
    by (simp add: rejected_def)
  have 2: "response_interceptor (rejected 429 [(''retry-after'', ''5'')] JNull) =
     RateLimitError ''Rate limit exceeded'' (Some (Num 5))"
    using response_interceptor_classifies[of "rejected 429 [(''retry-after'', ''5'')] JNull" ?r2]
    by (simp add: rejected_def parseInt_5)
  have 3: "response_interceptor (rejected 429 [(''content-type'', ''text/plain'')] JNull) =
     RateLimitError ''Rate limit exceeded'' None"
    using response_interceptor_classifies[of "rejected 429 [(''content-type'', ''text/plain'')] JNull" ?r3]
    by (simp add: rejected_def)
  have 4: "response_interceptor (rejected 404 [] ?d4) = SpotifyAPIError ''Not found'' 404 ?d4"
    using response_interceptor_classifies[of "rejected 404 [] ?d4" ?r4]
    by (simp add: rejected_def)
  have 5: "response_interceptor (rejected 502 [] (JStr ''Bad Gateway'')) =
     SpotifyAPIError ''Spotify API error'' 502 (JStr ''Bad Gateway'')"
    using response_interceptor_classifies[of "rejected 502 [] (JStr ''Bad Gateway'')" ?r5]
    by (simp add: rejected_def)
  have 6: "response_interceptor connection_refused = NetworkError ''Network error'' connection_refused"
    using response_interceptor_classifies[of connection_refused]
    by (simp add: connection_refused_def)
  have t: "js_toString (JNum 17) = Some ''17''"
    by code_simp
  have 7: "response_interceptor (rejected 400 [] ?d7) = SpotifyAPIError ''17'' 400 ?d7"
    using response_interceptor_classifies[of "rejected 400 [] ?d7" ?r7] t
    by (simp add: rejected_def)
  let ?d8 = "JObj [(''error'', JObj [(''message'', JArr [JObj [(''toString'', JNull)]])])]"
  let ?r8 = "\<lparr>status = 503, headers = [], data = ?d8\<rparr>"
  have t8: "truthy (member_opt (member_opt ?d8 ''error'') ''message'') \<and>
      js_toString (member_opt (member_opt ?d8 ''error'') ''message'') = None"
    by code_simp
  have 8: "response_interceptor (rejected 503 [] ?d8) = TypeError"
    using response_interceptor_classifies[of "rejected 503 [] ?d8" ?r8] t8
    by (simp add: rejected_def)
  have 9: "response_interceptor \<lparr>response = None, request = False, message = ''Invalid URL''\<rparr> =
     Error ''Invalid URL''"
    using response_interceptor_classifies[of "\<lparr>response = None, request = False, message = ''Invalid URL''\<rparr>"]
    by simp
  from 1 2 3 4 7 5 8 6 9 show ?thesis by blast
qed

section \<open>OAuth code exchange and refresh\<close>

lemma events_record_event: "events (record_event e w) = events w @ [e]"
  by (simp add: record_event_def)

lemma remote_record_event: "remote (record_event e w) = remote w"
  by (simp add: record_event_def)

lemma token_post_fst: "fst (token_post S form w) = fst (token_endpoint S form (remote w))"
  by (simp add: token_post_def Let_def)

lemma token_post_events: "events (snd (token_post S form w)) = events w @ [TokenPost form]"
  by (simp add: token_post_def Let_def events_record_event)

lemma token_post_remote: "remote (snd (token_post S form w)) = snd (token_endpoint S form (remote w))"
  by (simp add: token_post_def Let_def)

text \<open>
  Claim C7, as stated, fails on the description of a failure: an \<^verbatim>\<open>error_description\<close>
  that the server provides as the empty string is replaced by "Token exchange failed";
  the description 42 (a number) is carried as the string "42"; and for a description
  that has no string conversion the construction of the error throws a \<^verbatim>\<open>TypeError\<close>, so
  that no \<^verbatim>\<open>AuthenticationError\<close> is raised.
\<close>

theorem exchangeCodeForToken_description_counterexample:
  "error_description (rejected 400 [] (JObj [(''error_description'', JStr [])])) = JStr [] \<and>
   fst (exchangeCodeForToken (refusing (JObj [(''error_description'', JStr [])]))
          fresh_client ''AUTH_CODE'' start) =
     Inl (AuthenticationError ''Token exchange failed'') \<and>
   fst (exchangeCodeForToken (refusing (JObj [(''error_description'', JNum 42)]))
          fresh_client ''AUTH_CODE'' start) =
     Inl (AuthenticationError ''42'') \<and>
   fst (exchangeCodeForToken
          (refusing (JObj [(''error_description'', JObj [(''toString'', JNum 1)])]))
          fresh_client ''AUTH_CODE'' start) =
     Inl TypeError"
  by code_simp

text \<open>
  Claim C7, amended. When the token endpoint answers the posted authorization code with
  token data, \<^verbatim>\<open>exchangeCodeForToken\<close> stores and returns a snapshot with the fields of the
  response and \<^verbatim>\<open>expires_at\<close> = the clock after the response + \<^verbatim>\<open>expires_in\<close> seconds (in
  milliseconds), and the client is authenticated. When the post fails with an Axios
  error, it throws \<^verbatim>\<open>AuthenticationError\<close> carrying the string conversion of the response's
  \<^verbatim>\<open>error_description\<close> if that is truthy and has one (a non-empty string is carried as it
  is), and "Token exchange failed" if the description is absent or falsy; a truthy
  description without a string conversion makes the construction throw a \<^verbatim>\<open>TypeError\<close>
  instead. A failure of the post that is not an Axios error is rethrown. Whenever it
  throws, the client (and so the stored tokens) is unchanged. Exactly one form is posted.
\<close>

theorem exchangeCodeForToken_stores_or_keeps:
  "(fst (token_endpoint S (authorization_code_form c code) (remote w)) = Inr td \<longrightarrow>
      (\<exists>snapshot.
         fst (exchangeCodeForToken S c code w) = Inr snapshot \<and>
         tokens (fst (snd (exchangeCodeForToken S c code w))) = Some snapshot \<and>
         isAuthenticated (fst (snd (exchangeCodeForToken S c code w))) \<and>
         expires_at snapshot =
           now S (remote (snd (snd (exchangeCodeForToken S c code w)))) + expires_in td * 1000 \<and>
         access_token snapshot = access_token td \<and>
         refresh_token snapshot = refresh_token td \<and>
         token_type snapshot = token_type td \<and>
         expires_in snapshot = expires_in td \<and>
         scope snapshot = scope td)) \<and>
   (fst (token_endpoint S (authorization_code_form c code) (remote w)) = Inl (AxiosFailure err) \<longrightarrow>
      (truthy (error_description err) \<and> js_toString (error_description err) = Some s \<longrightarrow>
         fst (exchangeCodeForToken S c code w) = Inl (AuthenticationError s)) \<and>
      (error_description err = JStr s \<and> s \<noteq> [] \<longrightarrow>
         fst (exchangeCodeForToken S c code w) = Inl (AuthenticationError s)) \<and>
      (\<not> truthy (error_description err) \<longrightarrow>
         fst (exchangeCodeForToken S c code w) = Inl (AuthenticationError ''Token exchange failed'')) \<and>
      (truthy (error_description err) \<and> js_toString (error_description err) = None \<longrightarrow>
         fst (exchangeCodeForToken S c code w) = Inl TypeError) \<and>
      fst (snd (exchangeCodeForToken S c code w)) = c) \<and>
   (fst (token_endpoint S (authorization_code_form c code) (remote w)) = Inl (OtherFailure x) \<longrightarrow>
      fst (exchangeCodeForToken S c code w) = Inl (Foreign x)) \<and>
   (isl (fst (exchangeCodeForToken S c code w)) \<longrightarrow>
      fst (snd (exchangeCodeForToken S c code w)) = c) \<and>
   events (snd (snd (exchangeCodeForToken S c code w))) =
     events w @ [TokenPost (authorization_code_form c code)]"
proof -
  let ?post = "fst (token_endpoint S (authorization_code_form c code) (remote w))"
  let ?d = "error_description err"
  have ok: "?post = Inr td \<longrightarrow>
      (\<exists>snapshot.
         fst (exchangeCodeForToken S c code w) = Inr snapshot \<and>
         tokens (fst (snd (exchangeCodeForToken S c code w))) = Some snapshot \<and>
         isAuthenticated (fst (snd (exchangeCodeForToken S c code w))) \<and>
         expires_at snapshot =
           now S (remote (snd (snd (exchangeCodeForToken S c code w)))) + expires_in td * 1000 \<and>
         access_token snapshot = access_token td \<and>
         refresh_token snapshot = refresh_token td \<and>
         token_type snapshot = token_type td \<and>
         expires_in snapshot = expires_in td \<and>
         scope snapshot = scope td)"
    by (simp add: exchangeCodeForToken_def Let_def token_post_fst isAuthenticated_def)
  have thrown: "?post = Inl (AxiosFailure err) \<Longrightarrow>
      fst (exchangeCodeForToken S c code w) =
        Inl (new_AuthenticationError (or_else ?d (JStr ''Token exchange failed'')))"
    by (simp add: exchangeCodeForToken_def Let_def token_post_fst)
  have f1: "?post = Inl (AxiosFailure err) \<Longrightarrow> truthy ?d \<and> js_toString ?d = Some s \<longrightarrow>
      fst (exchangeCodeForToken S c code w) = Inl (AuthenticationError s)"
    using thrown by (simp add: or_else_def new_AuthenticationError_truthy)
  have f2: "?post = Inl (AxiosFailure err) \<Longrightarrow> ?d = JStr s \<and> s \<noteq> [] \<longrightarrow>
      fst (exchangeCodeForToken S c code w) = Inl (AuthenticationError s)"
    using thrown by (simp add: or_else_def new_AuthenticationError_string)
  have f3: "?post = Inl (AxiosFailure err) \<Longrightarrow> \<not> truthy ?d \<longrightarrow>
      fst (exchangeCodeForToken S c code w) = Inl (AuthenticationError ''Token exchange failed'')"
    using thrown by (simp add: or_else_def new_AuthenticationError_string)
  have f5: "?post = Inl (AxiosFailure err) \<Longrightarrow> truthy ?d \<and> js_toString ?d = None \<longrightarrow>
      fst (exchangeCodeForToken S c code w) = Inl TypeError"
    using thrown by (simp add: or_else_def new_AuthenticationError_no_string)
  have other: "?post = Inl (OtherFailure x) \<longrightarrow>
      fst (exchangeCodeForToken S c code w) = Inl (Foreign x)"
    by (simp add: exchangeCodeForToken_def Let_def token_post_fst)
  have keep: "isl (fst (exchangeCodeForToken S c code w)) \<longrightarrow>
      fst (snd (exchangeCodeForToken S c code w)) = c"
    by (auto simp: exchangeCodeForToken_def Let_def split: sum.splits post_failure.splits)
  have f4: "?post = Inl (AxiosFailure err) \<Longrightarrow> fst (snd (exchangeCodeForToken S c code w)) = c"
    by (simp add: exchangeCodeForToken_def Let_def token_post_fst)
  have ev: "events (snd (snd (exchangeCodeForToken S c code w))) =
      events w @ [TokenPost (authorization_code_form c code)]"
    by (auto simp: exchangeCodeForToken_def Let_def token_post_events
          split: sum.splits post_failure.splits)
  from ok f1 f2 f3 f4 f5 other keep ev show ?thesis by blast
qed

theorem exchangeCodeForToken_stores_or_keeps_witness:
  "fst (token_endpoint demo (authorization_code_form fresh_client ''AUTH_CODE'') (remote start)) =
     Inr demo_token_data \<and>
   fst (token_endpoint demo (authorization_code_form fresh_client ''nope'') (remote start)) =
     Inl (AxiosFailure invalid_grant) \<and>
   (\<exists>snapshot.
      fst (exchangeCodeForToken demo fresh_client ''AUTH_CODE'' start) = Inr snapshot \<and>
      tokens (fst (snd (exchangeCodeForToken demo fresh_client ''AUTH_CODE'' start))) = Some snapshot \<and>
      isAuthenticated (fst (snd (exchangeCodeForToken demo fresh_client ''AUTH_CODE'' start))) \<and>
      expires_at snapshot =
        now demo (remote (snd (snd (exchangeCodeForToken demo fresh_client ''AUTH_CODE'' start)))) +
        3600 * 1000) \<and>
   fst (exchangeCodeForToken demo fresh_client ''nope'' start) =
     Inl (AuthenticationError ''Invalid authorization code'') \<and>
   fst (snd (exchangeCodeForToken demo fresh_client ''nope'' start)) = fresh_client \<and>
   fst (token_endpoint (refusing (JArr [JNum 4, JNum 2]))
          (authorization_code_form fresh_client ''AUTH_CODE'') (remote start)) =
     Inl (AxiosFailure (rejected 400 [] (JArr [JNum 4, JNum 2]))) \<and>
   \<not> truthy (error_description (rejected 400 [] (JArr [JNum 4, JNum 2]))) \<and>
   fst (exchangeCodeForToken (refusing (JArr [JNum 4, JNum 2])) fresh_client ''AUTH_CODE'' start) =
     Inl (AuthenticationError ''Token exchange failed'') \<and>
   fst (token_endpoint (refusing (JObj [(''error_description'', JArr [JNum 4, JNum 2])]))
          (authorization_code_form fresh_client ''AUTH_CODE'') (remote start)) =
     Inl (AxiosFailure (rejected 400 [] (JObj [(''error_description'', JArr [JNum 4, JNum 2])]))) \<and>
   fst (exchangeCodeForToken (refusing (JObj [(''error_description'', JArr [JNum 4, JNum 2])]))
          fresh_client ''AUTH_CODE'' start) =
     Inl (AuthenticationError ''4,2'') \<and>
   fst (token_endpoint (refusing (JObj [(''error_description'', JObj [(''toString'', JBool False)])]))
          (authorization_code_form fresh_client ''AUTH_CODE'') (remote start)) =
     Inl (AxiosFailure
            (rejected 400 [] (JObj [(''error_description'', JObj [(''toString'', JBool False)])]))) \<and>
   fst (exchangeCodeForToken
          (refusing (JObj [(''error_description'', JObj [(''toString'', JBool False)])]))
          fresh_client ''AUTH_CODE'' start) =
     Inl TypeError \<and>
   fst (snd (exchangeCodeForToken
          (refusing (JObj [(''error_description'', JObj [(''toString'', JBool False)])]))
          fresh_client ''AUTH_CODE'' start)) = fresh_client"
proof -
  let ?none = "JArr [JNum 4, JNum 2]"
  let ?list = "JObj [(''error_description'', JArr [JNum 4, JNum 2])]"
  have h1: "fst (token_endpoint demo (authorization_code_form fresh_client ''AUTH_CODE'') (remote start)) =
     Inr demo_token_data"
    by code_simp
  have h2: "fst (token_endpoint demo (authorization_code_form fresh_client ''nope'') (remote start)) =
     Inl (AxiosFailure invalid_grant)"
    by code_simp
  have h3: "fst (token_endpoint (refusing ?none)
          (authorization_code_form fresh_client ''AUTH_CODE'') (remote start)) =
     Inl (AxiosFailure (rejected 400 [] ?none))"
    by code_simp
  have h4: "fst (token_endpoint (refusing ?list)
          (authorization_code_form fresh_client ''AUTH_CODE'') (remote start)) =
     Inl (AxiosFailure (rejected 400 [] ?list))"
    by code_simp
  have d: "expires_in demo_token_data = 3600"
    by (simp add: demo_token_data_def)
  have e: "error_description invalid_grant = JStr ''Invalid authorization code''"
    by code_simp
  have e3: "\<not> truthy (error_description (rejected 400 [] ?none))"
    by code_simp
  have e4: "truthy (error_description (rejected 400 [] ?list)) \<and>
      js_toString (error_description (rejected 400 [] ?list)) = Some ''4,2''"
    by code_simp
  from exchangeCodeForToken_stores_or_keeps[where S=demo and c=fresh_client and code="''AUTH_CODE''"
      and w=start and td=demo_token_data] h1 d
  have c1: "\<exists>snapshot.
      fst (exchangeCodeForToken demo fresh_client ''AUTH_CODE'' start) = Inr snapshot \<and>
      tokens (fst (snd (exchangeCodeForToken demo fresh_client ''AUTH_CODE'' start))) = Some snapshot \<and>
      isAuthenticated (fst (snd (exchangeCodeForToken demo fresh_client ''AUTH_CODE'' start))) \<and>
      expires_at snapshot =
        now demo (remote (snd (snd (exchangeCodeForToken demo fresh_client ''AUTH_CODE'' start)))) +
        3600 * 1000"
    by auto
  from exchangeCodeForToken_stores_or_keeps[where S=demo and c=fresh_client and code="''nope''"
      and w=start and err=invalid_grant and s="''Invalid authorization code''"] h2 e
  have c2: "fst (exchangeCodeForToken demo fresh_client ''nope'' start) =
     Inl (AuthenticationError ''Invalid authorization code'') \<and>
   fst (snd (exchangeCodeForToken demo fresh_client ''nope'' start)) = fresh_client"
    by simp
  from exchangeCodeForToken_stores_or_keeps[where S="refusing ?none" and c=fresh_client
      and code="''AUTH_CODE''" and w=start and err="rejected 400 [] ?none"] h3 e3
  have c3: "fst (exchangeCodeForToken (refusing ?none) fresh_client ''AUTH_CODE'' start) =
     Inl (AuthenticationError ''Token exchange failed'')"
    by blast
  from exchangeCodeForToken_stores_or_keeps[where S="refusing ?list" and c=fresh_client
      and code="''AUTH_CODE''" and w=start and err="rejected 400 [] ?list" and s="''4,2''"] h4 e4
  have c4: "fst (exchangeCodeForToken (refusing ?list) fresh_client ''AUTH_CODE'' start) =
     Inl (AuthenticationError ''4,2'')"
    by blast
  let ?odd = "JObj [(''error_description'', JObj [(''toString'', JBool False)])]"
  have h5: "fst (token_endpoint (refusing ?odd)
          (authorization_code_form fresh_client ''AUTH_CODE'') (remote start)) =
     Inl (AxiosFailure (rejected 400 [] ?odd))"
    by code_simp
  have e5: "truthy (error_description (rejected 400 [] ?odd)) \<and>
      js_toString (error_description (rejected 400 [] ?odd)) = None"
    by code_simp
  from exchangeCodeForToken_stores_or_keeps[where S="refusing ?odd" and c=fresh_client
      and code="''AUTH_CODE''" and w=start and err="rejected 400 [] ?odd"] h5 e5
  have c5: "fst (exchangeCodeForToken (refusing ?odd) fresh_client ''AUTH_CODE'' start) =
     Inl TypeError \<and>
   fst (snd (exchangeCodeForToken (refusing ?odd) fresh_client ''AUTH_CODE'' start)) = fresh_client"
    by blast
  show ?thesis
    by (intro conjI) (rule h1 h2 c1 c2[THEN conjunct1] c2[THEN conjunct2] h3 e3 c3 h4 c4 h5
        c5[THEN conjunct1] c5[THEN conjunct2])+
qed

text \<open>The scenario of the specification, evaluated.\<close>

lemma exchange_scenario:
  "fst (exchangeCodeForToken demo fresh_client ''AUTH_CODE'' start) =
     Inr \<lparr>access_token = ''A'', refresh_token = Some ''R'', token_type = ''Bearer'',
          expires_in = 3600, scope = ''x'', expires_at = 1700000001000 + 3600000\<rparr>"
  by code_simp

lemma refreshAccessToken_no_token:
  "tokens c = None \<or> (\<exists>t. tokens c = Some t \<and> (refresh_token t = None \<or> refresh_token t = Some [])) \<Longrightarrow>
   refreshAccessToken S c w =
     (Inl (AuthenticationError ''No refresh token available''), c, record_event RefreshCall w)"
  by (auto simp: refreshAccessToken_def Let_def new_AuthenticationError_string)

lemma network_calls_record_RefreshCall: "network_calls (record_event RefreshCall w) = network_calls w"
  by (simp add: network_calls_def events_record_event)

text \<open>
  Claim C8. Without stored tokens, or with stored tokens that have no refresh token (or
  an empty one), \<^verbatim>\<open>refreshAccessToken\<close> throws \<^verbatim>\<open>AuthenticationError\<close>; the client is
  unchanged, the server's state is unchanged, and no request or form post is added to
  the world.
\<close>

theorem refreshAccessToken_without_refresh_token:
  assumes "tokens c = None \<or>
           (\<exists>t. tokens c = Some t \<and> (refresh_token t = None \<or> refresh_token t = Some []))"
  shows "fst (refreshAccessToken S c w) =
           Inl (AuthenticationError ''No refresh token available'') \<and>
         fst (snd (refreshAccessToken S c w)) = c \<and>
         remote (snd (snd (refreshAccessToken S c w))) = remote w \<and>
         filter (\<lambda>e. is_TokenPost e \<or> is_Http e) (events (snd (snd (refreshAccessToken S c w)))) =
           filter (\<lambda>e. is_TokenPost e \<or> is_Http e) (events w) \<and>
         network_calls (snd (snd (refreshAccessToken S c w))) = network_calls w"
  using refreshAccessToken_no_token[OF assms, of S w]
  by (simp add: network_calls_def events_record_event remote_record_event)

theorem refreshAccessToken_without_refresh_token_witness:
  "(tokens fresh_client = None \<or>
    (\<exists>t. tokens fresh_client = Some t \<and> (refresh_token t = None \<or> refresh_token t = Some []))) \<and>
   fst (refreshAccessToken demo fresh_client start) =
     Inl (AuthenticationError ''No refresh token available'') \<and>
   fst (snd (refreshAccessToken demo fresh_client start)) = fresh_client \<and>
   network_calls (snd (snd (refreshAccessToken demo fresh_client start))) = network_calls start \<and>
   (tokens (client_with ((stored_tokens 5)\<lparr>refresh_token := None\<rparr>)) = None \<or>
    (\<exists>t. tokens (client_with ((stored_tokens 5)\<lparr>refresh_token := None\<rparr>)) = Some t \<and>
         (refresh_token t = None \<or> refresh_token t = Some []))) \<and>
   fst (refreshAccessToken demo (client_with ((stored_tokens 5)\<lparr>refresh_token := None\<rparr>)) start) =
     Inl (AuthenticationError ''No refresh token available'') \<and>
   fst (snd (refreshAccessToken demo (client_with ((stored_tokens 5)\<lparr>refresh_token := None\<rparr>)) start)) =
     client_with ((stored_tokens 5)\<lparr>refresh_token := None\<rparr>)"
proof -
  let ?c = "client_with ((stored_tokens 5)\<lparr>refresh_token := None\<rparr>)"
  have h1: "tokens fresh_client = None \<or>
    (\<exists>t. tokens fresh_client = Some t \<and> (refresh_token t = None \<or> refresh_token t = Some []))"
    by (simp add: fresh_client_def)
  have h2: "tokens ?c = None \<or>
    (\<exists>t. tokens ?c = Some t \<and> (refresh_token t = None \<or> refresh_token t = Some []))"
    by (simp add: client_with_def stored_tokens_def)
  from refreshAccessToken_without_refresh_token[OF h1, of demo start]
       refreshAccessToken_without_refresh_token[OF h2, of demo start] h1 h2
  show ?thesis by blast
qed

lemma refreshAccessToken_with_token:
  "tokens c = Some t \<Longrightarrow> refresh_token t = Some stored \<Longrightarrow> stored \<noteq> [] \<Longrightarrow>
   refreshAccessToken S c w = refresh_with S c t stored (record_event RefreshCall w)"
  by (simp add: refreshAccessToken_def Let_def)

lemma refreshAccessToken_events:
  "\<exists>posts. events (snd (snd (refreshAccessToken S c w))) = events w @ RefreshCall # posts \<and>
           RefreshCall \<notin> set posts"
proof (cases "tokens c = None \<or>
           (\<exists>t. tokens c = Some t \<and> (refresh_token t = None \<or> refresh_token t = Some []))")
  case True
  from refreshAccessToken_no_token[OF this, of S w] show ?thesis
    by (simp add: events_record_event)
next
  case False
  then obtain t stored where t: "tokens c = Some t" "refresh_token t = Some stored" "stored \<noteq> []"
    by auto
  have "events (snd (snd (refresh_with S c t stored (record_event RefreshCall w)))) =
          events w @ [RefreshCall, TokenPost (refresh_token_form c stored)]"
    by (simp add: refresh_with_def Let_def token_post_events events_record_event
          split: sum.splits post_failure.splits)
  with refreshAccessToken_with_token[OF t, of S w] show ?thesis by simp
qed

lemma refresh_calls_refreshAccessToken:
  "refresh_calls (snd (snd (refreshAccessToken S c w))) = Suc (refresh_calls w)"
proof -
  from refreshAccessToken_events[of S c w] obtain posts where
    "events (snd (snd (refreshAccessToken S c w))) = events w @ RefreshCall # posts"
    "RefreshCall \<notin> set posts" by blast
  moreover from this(2) have "filter (\<lambda>e. e = RefreshCall) posts = []"
    by (auto simp: filter_empty_conv)
  ultimately show ?thesis
    by (simp add: refresh_calls_def)
qed

text \<open>
  Claim C9. When a refresh token is stored and the token endpoint answers the refresh
  with token data \<open>td\<close>, \<^verbatim>\<open>refreshAccessToken\<close> returns the new access token and the stored
  snapshot is the old one with only \<^verbatim>\<open>access_token\<close> and \<^verbatim>\<open>expires_at\<close> replaced
  (\<^verbatim>\<open>expires_at\<close> = the clock after the response + \<^verbatim>\<open>expires_in\<close> seconds): the refresh
  token, the token type, the scope and the stored \<^verbatim>\<open>expires_in\<close> are the old ones, whatever
  \<open>td\<close> contains, and the configuration is unchanged.
\<close>

theorem refreshAccessToken_replaces_access_token_and_expiry:
  assumes "tokens c = Some t" and "refresh_token t = Some stored" and "stored \<noteq> []"
    and "fst (token_endpoint S (refresh_token_form c stored) (remote w)) = Inr td"
  shows "fst (refreshAccessToken S c w) = Inr (access_token td) \<and>
         (\<exists>t'. tokens (fst (snd (refreshAccessToken S c w))) = Some t' \<and>
            access_token t' = access_token td \<and>
            expires_at t' =
              now S (remote (snd (snd (refreshAccessToken S c w)))) + expires_in td * 1000 \<and>
            refresh_token t' = refresh_token t \<and>
            token_type t' = token_type t \<and>
            scope t' = scope t \<and>
            expires_in t' = expires_in t \<and>
            t' = t\<lparr>access_token := access_token t', expires_at := expires_at t'\<rparr>) \<and>
         config (fst (snd (refreshAccessToken S c w))) = config c"
  using assms(4)
  by (simp add: refreshAccessToken_with_token[OF assms(1-3)] refresh_with_def Let_def
        token_post_fst remote_record_event)

theorem refreshAccessToken_replaces_access_token_and_expiry_witness:
  "tokens (client_with (stored_tokens 5)) = Some (stored_tokens 5) \<and>
   refresh_token (stored_tokens 5) = Some ''R'' \<and> ''R'' \<noteq> [] \<and>
   fst (token_endpoint demo (refresh_token_form (client_with (stored_tokens 5)) ''R'') (remote start)) =
     Inr demo_refreshed \<and>
   refresh_token demo_refreshed = Some ''R2'' \<and>
   fst (refreshAccessToken demo (client_with (stored_tokens 5)) start) = Inr (access_token demo_refreshed) \<and>
   (\<exists>t'. tokens (fst (snd (refreshAccessToken demo (client_with (stored_tokens 5)) start))) = Some t' \<and>
      access_token t' = access_token demo_refreshed \<and>
      refresh_token t' = Some ''R'' \<and>
      token_type t' = token_type (stored_tokens 5) \<and>
      scope t' = scope (stored_tokens 5))"
proof -
  have h1: "tokens (client_with (stored_tokens 5)) = Some (stored_tokens 5)"
    by (simp add: client_with_def)
  have h2: "refresh_token (stored_tokens 5) = Some ''R''"
    by (simp add: stored_tokens_def)
  have h3: "''R'' \<noteq> []" by simp
  have h4: "fst (token_endpoint demo (refresh_token_form (client_with (stored_tokens 5)) ''R'') (remote start)) =
     Inr demo_refreshed"
    by code_simp
  have h5: "refresh_token demo_refreshed = Some ''R2''"
    by (simp add: demo_refreshed_def)
  from refreshAccessToken_replaces_access_token_and_expiry[OF h1 h2 h3 h4] h1 h2 h3 h4 h5
  show ?thesis by auto
qed

text \<open>
  Claim C3. Without stored tokens \<^verbatim>\<open>ensureValidToken\<close> throws
  \<^verbatim>\<open>AuthenticationError("Not authenticated")\<close> and changes nothing. With stored tokens
  whose expiry is at most five minutes after the current clock (the bound included) it
  calls \<^verbatim>\<open>refreshAccessToken\<close> exactly once and does nothing else: it ends in the state
  the refresh left, returning if the refresh returned and throwing the refresh's failure
  if it threw. With a later expiry it calls no refresh and returns with nothing changed.
\<close>

theorem ensureValidToken_refreshes_within_five_minutes:
  "(tokens c = None \<longrightarrow>
      ensureValidToken S c w = (Inl (AuthenticationError ''Not authenticated''), c, w)) \<and>
   (tokens c = Some t \<and> expires_at t \<le> now S (remote w) + 5 * 60 * 1000 \<longrightarrow>
      refresh_calls (snd (snd (ensureValidToken S c w))) = refresh_calls w + 1 \<and>
      snd (ensureValidToken S c w) = snd (refreshAccessToken S c w) \<and>
      fst (ensureValidToken S c w) = map_sum (\<lambda>e. e) (\<lambda>a. ()) (fst (refreshAccessToken S c w))) \<and>
   (tokens c = Some t \<and> expires_at t > now S (remote w) + 5 * 60 * 1000 \<longrightarrow>
      ensureValidToken S c w = (Inr (), c, w) \<and>
      refresh_calls (snd (snd (ensureValidToken S c w))) = refresh_calls w)"
  by (auto simp: ensureValidToken_def Let_def refresh_calls_refreshAccessToken
        new_AuthenticationError_string split: sum.splits)

theorem ensureValidToken_refreshes_within_five_minutes_witness:
  "tokens fresh_client = None \<and>
   ensureValidToken demo fresh_client start =
     (Inl (AuthenticationError ''Not authenticated''), fresh_client, start) \<and>
   tokens (client_with (stored_tokens 1700000300000)) = Some (stored_tokens 1700000300000) \<and>
   expires_at (stored_tokens 1700000300000) \<le> now demo (remote start) + 5 * 60 * 1000 \<and>
   refresh_calls (snd (snd (ensureValidToken demo (client_with (stored_tokens 1700000300000)) start))) =
     refresh_calls start + 1 \<and>
   tokens (client_with (stored_tokens 1700000300001)) = Some (stored_tokens 1700000300001) \<and>
   expires_at (stored_tokens 1700000300001) > now demo (remote start) + 5 * 60 * 1000 \<and>
   ensureValidToken demo (client_with (stored_tokens 1700000300001)) start =
     (Inr (), client_with (stored_tokens 1700000300001), start) \<and>
   refresh_calls (snd (snd (ensureValidToken demo (client_with (stored_tokens 1700000300001)) start))) =
     refresh_calls start"
proof -
  have a1: "tokens fresh_client = None"
    by (simp add: fresh_client_def)
  have b1: "tokens (client_with (stored_tokens 1700000300000)) = Some (stored_tokens 1700000300000)"
    by (simp add: client_with_def)
  have b2: "expires_at (stored_tokens 1700000300000) \<le> now demo (remote start) + 5 * 60 * 1000"
    by (simp add: stored_tokens_def demo_def start_def)
  have c1: "tokens (client_with (stored_tokens 1700000300001)) = Some (stored_tokens 1700000300001)"
    by (simp add: client_with_def)
  have c2: "expires_at (stored_tokens 1700000300001) > now demo (remote start) + 5 * 60 * 1000"
    by (simp add: stored_tokens_def demo_def start_def)
  from ensureValidToken_refreshes_within_five_minutes[of fresh_client demo start] a1
  have a: "ensureValidToken demo fresh_client start =
     (Inl (AuthenticationError ''Not authenticated''), fresh_client, start)"
    by blast
  from ensureValidToken_refreshes_within_five_minutes[of "client_with (stored_tokens 1700000300000)"
      demo start "stored_tokens 1700000300000"] b1 b2
  have b: "refresh_calls (snd (snd (ensureValidToken demo (client_with (stored_tokens 1700000300000)) start))) =
     refresh_calls start + 1"
    by blast
  from ensureValidToken_refreshes_within_five_minutes[of "client_with (stored_tokens 1700000300001)"
      demo start "stored_tokens 1700000300001"] c1 c2
  have c: "ensureValidToken demo (client_with (stored_tokens 1700000300001)) start =
     (Inr (), client_with (stored_tokens 1700000300001), start) \<and>
   refresh_calls (snd (snd (ensureValidToken demo (client_with (stored_tokens 1700000300001)) start))) =
     refresh_calls start"
    by blast
  from a1 a b1 b2 b c1 c2 c show ?thesis by blast
qed

section \<open>Batched calls\<close>













lemma fetch_batches_fails:
  "k < length bs \<Longrightarrow> serves (get_tracks S c) (take k bs) w rs wk \<Longrightarrow>
   fst (get_tracks S c (bs ! k) wk) = Inl e \<Longrightarrow>
   fetch_batches S c bs acc w = (Inl e, snd (get_tracks S c (bs ! k) wk))"
proof (induction bs arbitrary: k acc w rs)
  case Nil
  then show ?case by simp
next
  case (Cons b bs)
  show ?case
  proof (cases k)
    case 0
    with Cons.prems show ?thesis by simp
  next
    case (Suc j)
    with Cons.prems obtain r rs' where rs: "rs = r # rs'" by (cases rs) simp_all
    with Cons.prems Suc have 1: "fst (get_tracks S c b w) = Inr r"
      and 2: "serves (get_tracks S c) (take j bs) (snd (get_tracks S c b w)) rs' wk"
      and 3: "j < length bs" and 4: "fst (get_tracks S c (bs ! j) wk) = Inl e" by simp_all
    from Cons.IH[OF 3 2 4] 1 Suc show ?thesis by simp
  qed
qed




text \<open>A retried call whose first attempt is answered: one request, no wait.\<close>

lemma retried_call_first_attempt:
  assumes "fst (endpoint (request_interceptor c req) (remote w)) = Inr r"
  shows "retryWithBackoff (sleep_ms S) (http_call endpoint c req) no_options w =
     (Inr r, (record_event (Http (request_interceptor c req)) w)
               \<lparr>remote := snd (endpoint (request_interceptor c req) (remote w))\<rparr>)"
proof -
  have f: "fst (http_call endpoint c req w) = Inr r"
    using assms by (simp add: http_call_def Let_def)
  have s: "snd (http_call endpoint c req w) =
     (record_event (Http (request_interceptor c req)) w)
       \<lparr>remote := snd (endpoint (request_interceptor c req) (remote w))\<rparr>"
    by (simp add: http_call_def Let_def)
  have "int 0 \<le> 3" by simp
  from retry_loop_success[where operation="http_call endpoint c req" and s=w, OF this f] s
  show ?thesis
    by (simp add: retryWithBackoff_def no_options_def or_default_def)
qed

text \<open>The requests that a retried call sends: the same request, between one and four times,
  and four times when it fails.\<close>

lemma sent_requests_append: "sent_requests (es @ fs) = sent_requests es @ sent_requests fs"
  by (induction es rule: sent_requests.induct) simp_all

lemma http_call_requests:
  "sent_requests (events (snd (http_call endpoint c req w))) =
     sent_requests (events w) @ [request_interceptor c req]"
  by (simp add: http_call_def Let_def record_event_def sent_requests_append)

lemma sleep_ms_requests: "sent_requests (events (sleep_ms S d w)) = sent_requests (events w)"
  by (simp add: sleep_ms_def record_event_def sent_requests_append)

lemma retry_loop_requests:
  "int a \<le> M \<Longrightarrow>
   \<exists>n. 1 \<le> n \<and> int (a + n) \<le> M + 1 \<and>
     sent_requests (events (snd (retry_loop (sleep_ms S) (http_call endpoint c req) M base cap factor a le w))) =
       sent_requests (events w) @ replicate n (request_interceptor c req) \<and>
     (isl (fst (retry_loop (sleep_ms S) (http_call endpoint c req) M base cap factor a le w)) \<longrightarrow>
        int (a + n) = M + 1)"
proof (induction "nat (M - int a)" arbitrary: a le w)
  case 0
  then have eq: "int a = M" by simp
  show ?case
  proof (cases "fst (http_call endpoint c req w)")
    case (Inl e)
    from retry_loop_last[where operation="http_call endpoint c req" and s=w, OF eq Inl] eq
    show ?thesis
      by (intro exI[of _ 1]) (simp add: http_call_requests)
  next
    case (Inr v)
    from retry_loop_success[where operation="http_call endpoint c req" and s=w, OF "0.prems" Inr] eq
    show ?thesis
      by (intro exI[of _ 1]) (simp add: http_call_requests)
  qed
next
  case (Suc m)
  then have lt: "int a < M" by simp
  show ?case
  proof (cases "fst (http_call endpoint c req w)")
    case (Inr v)
    from retry_loop_success[where operation="http_call endpoint c req" and s=w, OF Suc.prems Inr] lt
    show ?thesis
      by (intro exI[of _ 1]) (simp add: http_call_requests)
  next
    case (Inl e)
    let ?w = "sleep_ms S (backoff_delay base factor cap a) (snd (http_call endpoint c req w))"
    let ?run = "retry_loop (sleep_ms S) (http_call endpoint c req) M base cap factor (Suc a) (Some e) ?w"
    have again: "retry_loop (sleep_ms S) (http_call endpoint c req) M base cap factor a le w = ?run"
      by (rule retry_loop_again[where operation="http_call endpoint c req" and s=w, OF lt Inl])
    have m: "m = nat (M - int (Suc a))" using Suc.hyps(2) by simp
    have le': "int (Suc a) \<le> M" using lt by simp
    from Suc.hyps(1)[OF m le', of "Some e" ?w] obtain n where
      n: "1 \<le> n" "int (Suc a + n) \<le> M + 1"
        "sent_requests (events (snd ?run)) =
           sent_requests (events ?w) @ replicate n (request_interceptor c req)"
        "isl (fst ?run) \<longrightarrow> int (Suc a + n) = M + 1"
      by blast
    have s: "sent_requests (events (snd ?run)) =
        sent_requests (events w) @ replicate (Suc n) (request_interceptor c req)"
      using n(3) by (simp add: sleep_ms_requests http_call_requests)
    show ?thesis
      unfolding again using n(1,2,4) s
      by (intro exI[of _ "Suc n"]) simp
  qed
qed

lemma retried_call_requests:
  "\<exists>n. 1 \<le> n \<and> n \<le> 4 \<and>
     sent_requests (events (snd (retryWithBackoff (sleep_ms S) (http_call endpoint c req) no_options w))) =
       sent_requests (events w) @ replicate n (request_interceptor c req) \<and>
     (isl (fst (retryWithBackoff (sleep_ms S) (http_call endpoint c req) no_options w)) \<longrightarrow> n = 4)"
proof -
  have "int 0 \<le> 3" by simp
  from retry_loop_requests[OF this, of S endpoint c req 1000 10000 2 None w]
  show ?thesis
    by (auto simp: retryWithBackoff_def no_options_def or_default_def)
qed

lemma get_tracks_requests:
  "\<exists>n. 1 \<le> n \<and> n \<le> 4 \<and>
     sent_requests (events (snd (get_tracks S c b w))) =
       sent_requests (events w) @ replicate n (tracks_request c b) \<and>
     (isl (fst (get_tracks S c b w)) \<longrightarrow> n = 4)"
  unfolding get_tracks_def tracks_request_def by (rule retried_call_requests)


text \<open>
  What a loop over the batches sends, whatever the server answers: the request of each
  batch between one and four times, in batch order, up to the batch where it stops.
\<close>

lemma batch_loop_requests:
  fixes run :: "'b \<Rightarrow> 'w world \<Rightarrow> ('e + 'r) \<times> 'w world"
  assumes step: "\<And>b w. \<exists>n. 1 \<le> n \<and> n \<le> 4 \<and>
     sent_requests (events (snd (run b w))) = sent_requests (events w) @ replicate n (req b) \<and>
     (isl (fst (run b w)) \<longrightarrow> n = 4)"
  shows "serves run bs w rs w' \<Longrightarrow>
     \<exists>ns. length ns = length bs \<and> set ns \<subseteq> {1..4} \<and>
       sent_requests (events w') = sent_requests (events w) @ repeated ns (map req bs)"
proof (induction bs arbitrary: w rs)
  case Nil
  then show ?case by (intro exI[of _ "[]"]) simp
next
  case (Cons b bs)
  then obtain r rs' where rs: "rs = r # rs'" by (cases rs) simp_all
  with Cons.prems have 2: "serves run bs (snd (run b w)) rs' w'" by simp
  from Cons.IH[OF 2] obtain ns where ns: "length ns = length bs" "set ns \<subseteq> {1..4}"
    "sent_requests (events w') = sent_requests (events (snd (run b w))) @ repeated ns (map req bs)"
    by blast
  from step[of b w] obtain n where n: "1 \<le> n" "n \<le> 4"
    "sent_requests (events (snd (run b w))) = sent_requests (events w) @ replicate n (req b)"
    by blast
  from ns n show ?case by (intro exI[of _ "n # ns"]) simp
qed






lemma serves_get_tracks_requests:
  "serves (get_tracks S c) bs w rs w' \<Longrightarrow>
   \<exists>ns. length ns = length bs \<and> set ns \<subseteq> {1..4} \<and>
     sent_requests (events w') = sent_requests (events w) @ repeated ns (map (tracks_request c) bs)"
  by (rule batch_loop_requests[where run="get_tracks S c" and req="tracks_request c"])
     (rule get_tracks_requests)







text \<open>The requests of this run: one per batch, in order, with the ids joined by commas.\<close>

lemma getTrackDetails_example_requests:
  "map url (sent_requests (events (snd (snd (getTrackDetails demo valid_client some_ids start))))) =
     [''/tracks?ids='' @ join_with '','' (replicate 50 ''a''), ''/tracks?ids=b'']"
  by code_simp



text \<open>
  The failing run on the small server: the first batch is sent once, the second four
  times with waits of 1000, 2000 and 4000 milliseconds, the third never.
\<close>

lemma addTracksToPlaylist_example_requests:
  "map body (sent_requests (events (snd (snd (addTracksToPlaylist demo valid_client ''p1'' some_uris start))))) =
     UrisBody (replicate 100 ''a'') # replicate 4 (UrisBody (''bad'' # replicate 99 ''d'')) \<and>
   sleeps (events (snd (snd (addTracksToPlaylist demo valid_client ''p1'' some_uris start)))) =
     [1000, 2000, 4000] \<and>
   batches100 0 some_uris = [replicate 100 ''a'', ''bad'' # replicate 99 ''d'', [''d'']]"
  by code_simp

section \<open>Paginated fetch of the saved tracks\<close>

lemma replace_first_prefix: "pat \<noteq> [] \<Longrightarrow> replace_first pat rep (pat @ rest) = rep @ rest"
  by (cases pat) simp_all

lemma next_url_absolute:
  "next page = Some (''https://api.spotify.com/v1'' @ rest) \<Longrightarrow> next_url page = Some rest"
  using replace_first_prefix[of "''https://api.spotify.com/v1''" "[]" rest]
  by (simp add: next_url_def)

lemma next_url_null: "next page = None \<Longrightarrow> next_url page = None"
  by (simp add: next_url_def)

lemma length_following_paths: "ps \<noteq> [] \<Longrightarrow> Suc (length (following_paths ps)) = length ps"
  by (induction ps rule: following_paths.induct) simp_all

lemma liked_songs_loop_pages:
  "answers_pages (saved_tracks S) c path (remote w) ps \<Longrightarrow>
   liked_songs_loop S c (Some path) acc w =
     Some (Inr (acc @ concat (map (\<lambda>p. map snd (items p)) ps)),
           w\<lparr>events := events w @ map (\<lambda>u. Http (page_request c u)) (path # following_paths ps),
             remote := after_requests (saved_tracks S)
                         (map (page_request c) (path # following_paths ps)) (remote w)\<rparr>)"
proof (induction ps arbitrary: path acc w)
  case Nil
  then show ?case by simp
next
  case (Cons p ps)
  let ?req = "request_interceptor c (get_request path)"
  let ?w1 = "(record_event (Http ?req) w)\<lparr>remote := snd (saved_tracks S ?req (remote w))\<rparr>"
  from Cons.prems have path: "path \<noteq> []"
    and ans: "fst (saved_tracks S ?req (remote w)) = Inr p"
    by (cases ps; simp)+
  from retried_call_first_attempt[where endpoint="saved_tracks S" and c=c
      and req="get_request path" and w=w and S=S, OF ans]
  have page: "get_page S c path w = (Inr p, ?w1)"
    by (simp add: get_page_def)
  show ?case
  proof (cases ps)
    case Nil
    with Cons.prems have "next_url p = None \<or> next_url p = Some []" by simp
    then have "liked_songs_loop S c (next_url p) (acc @ map snd (items p)) ?w1 =
        Some (Inr (acc @ map snd (items p)), ?w1)"
      by (subst liked_songs_loop.simps) auto
    with path page Nil show ?thesis
      by (subst liked_songs_loop.simps) (simp add: record_event_def page_request_def[abs_def])
  next
    case (Cons q qs)
    with Cons.prems obtain u where u: "next_url p = Some u" "u \<noteq> []"
      and rest: "answers_pages (saved_tracks S) c u (snd (saved_tracks S ?req (remote w))) (q # qs)"
      by (auto split: option.splits)
    from rest have "answers_pages (saved_tracks S) c u (remote ?w1) ps"
      using Cons by simp
    from Cons.IH[OF this, of "acc @ map snd (items p)"] u path page Cons
    show ?thesis
      by (subst liked_songs_loop.simps) (simp add: record_event_def page_request_def[abs_def])
  qed
qed

lemma liked_songs_loop_fetches:
  "fetches_pages S c path w ps w' \<Longrightarrow>
   liked_songs_loop S c (Some path) acc w =
     Some (Inr (acc @ concat (map (\<lambda>p. map snd (items p)) ps)), w')"
proof (induction ps arbitrary: path acc w)
  case Nil
  then show ?case by simp
next
  case (Cons p ps)
  from Cons.prems have path: "path \<noteq> []" and page: "fst (get_page S c path w) = Inr p"
    by (cases ps; simp)+
  show ?case
  proof (cases ps)
    case Nil
    with Cons.prems have last: "next_url p = None \<or> next_url p = Some []"
      and w': "snd (get_page S c path w) = w'" by simp_all
    from last have "liked_songs_loop S c (next_url p) (acc @ map snd (items p)) w' =
        Some (Inr (acc @ map snd (items p)), w')"
      by (subst liked_songs_loop.simps) auto
    with path page w' Nil show ?thesis
      by (subst liked_songs_loop.simps) simp
  next
    case (Cons q qs)
    with Cons.prems obtain u where u: "next_url p = Some u" "u \<noteq> []"
      and rest: "fetches_pages S c u (snd (get_page S c path w)) ps w'"
      by (auto split: option.splits)
    from Cons.IH[OF rest, of "acc @ map snd (items p)"] u path page
    show ?thesis
      by (subst liked_songs_loop.simps) simp
  qed
qed

text \<open>
  A page whose retried request fails ends the loop: the failure is thrown as it is, and
  the songs collected so far are dropped.
\<close>

lemma liked_songs_loop_failure:
  "path \<noteq> [] \<Longrightarrow> fst (get_page S c path w) = Inl e \<Longrightarrow>
   liked_songs_loop S c (Some path) acc w = Some (Inl e, snd (get_page S c path w))"
  by (subst liked_songs_loop.simps) simp

text \<open>
  Claim C4. After a successful token check, when the server answers the request for
  \<^verbatim>\<open>/me/tracks?limit=50\<close> and then for each page's \<^verbatim>\<open>next\<close> with the API origin removed with
  a page, and the last of these pages has no \<^verbatim>\<open>next\<close>, \<^verbatim>\<open>getLikedSongs\<close> returns (it
  terminates) the tracks of the pages, page after page and in each page's order. The
  requests it added to the world are exactly one per page: the first path and then the
  stripped cursors, in order, nothing else. An absolute \<^verbatim>\<open>next\<close> URL loses exactly its
  origin, and \<^verbatim>\<open>null\<close> stays \<^verbatim>\<open>null\<close>. More generally, when the retried requests for
  these paths yield the pages (each after however many attempts the retry policy
  allowed), the result is the same list and the world is the one after the last retried
  request: one retried request per page.
\<close>

theorem getLikedSongs_follows_pages:
  "(next page = Some (''https://api.spotify.com/v1'' @ rest) \<longrightarrow> next_url page = Some rest) \<and>
   (next page = None \<longrightarrow> next_url page = None) \<and>
   (fst (ensureValidToken S c w) = Inr () \<and>
    answers_pages (saved_tracks S) (fst (snd (ensureValidToken S c w))) ''/me/tracks?limit=50''
      (remote (snd (snd (ensureValidToken S c w)))) pages \<longrightarrow>
      getLikedSongs S c w =
        Some (Inr (concat (map (\<lambda>p. map snd (items p)) pages)),
              fst (snd (ensureValidToken S c w)),
              (snd (snd (ensureValidToken S c w)))
                \<lparr>events := events (snd (snd (ensureValidToken S c w))) @
                   map (\<lambda>u. Http (page_request (fst (snd (ensureValidToken S c w))) u))
                     (''/me/tracks?limit=50'' # following_paths pages),
                 remote := after_requests (saved_tracks S)
                   (map (page_request (fst (snd (ensureValidToken S c w))))
                      (''/me/tracks?limit=50'' # following_paths pages))
                   (remote (snd (snd (ensureValidToken S c w))))\<rparr>) \<and>
      length (''/me/tracks?limit=50'' # following_paths pages) = length pages) \<and>
   (fst (ensureValidToken S c w) = Inr () \<and>
    fetches_pages S (fst (snd (ensureValidToken S c w))) ''/me/tracks?limit=50''
      (snd (snd (ensureValidToken S c w))) pages w' \<longrightarrow>
      getLikedSongs S c w =
        Some (Inr (concat (map (\<lambda>p. map snd (items p)) pages)),
              fst (snd (ensureValidToken S c w)), w'))"
proof -
  let ?c = "fst (snd (ensureValidToken S c w))"
  let ?w = "snd (snd (ensureValidToken S c w))"
  let ?first = "''/me/tracks?limit=50''"
  let ?w' = "?w\<lparr>events := events ?w @ map (\<lambda>u. Http (page_request ?c u)) (?first # following_paths pages),
                remote := after_requests (saved_tracks S)
                   (map (page_request ?c) (?first # following_paths pages)) (remote ?w)\<rparr>"
  have run: "fst (ensureValidToken S c w) = Inr () \<and>
      answers_pages (saved_tracks S) ?c ?first (remote ?w) pages \<longrightarrow>
      getLikedSongs S c w = Some (Inr (concat (map (\<lambda>p. map snd (items p)) pages)), ?c, ?w') \<and>
      length (?first # following_paths pages) = length pages"
  proof (intro impI, elim conjE)
    assume v: "fst (ensureValidToken S c w) = Inr ()"
      and a: "answers_pages (saved_tracks S) ?c ?first (remote ?w) pages"
    from a have ne: "pages \<noteq> []" by (cases pages) simp_all
    from liked_songs_loop_pages[OF a, of "[]"]
    have "liked_songs_loop S ?c (Some ?first) [] ?w =
        Some (Inr (concat (map (\<lambda>p. map snd (items p)) pages)), ?w')"
      by simp
    with v have "getLikedSongs S c w = Some (Inr (concat (map (\<lambda>p. map snd (items p)) pages)), ?c, ?w')"
      by (simp add: getLikedSongs_def Let_def)
    with length_following_paths[OF ne]
    show "getLikedSongs S c w = Some (Inr (concat (map (\<lambda>p. map snd (items p)) pages)), ?c, ?w') \<and>
      length (?first # following_paths pages) = length pages"
      by simp
  qed
  have retried: "fst (ensureValidToken S c w) = Inr () \<and>
      fetches_pages S ?c ?first ?w pages w' \<longrightarrow>
      getLikedSongs S c w = Some (Inr (concat (map (\<lambda>p. map snd (items p)) pages)), ?c, w')"
  proof (intro impI, elim conjE)
    assume v: "fst (ensureValidToken S c w) = Inr ()"
      and f: "fetches_pages S ?c ?first ?w pages w'"
    from liked_songs_loop_fetches[OF f, of "[]"] v
    show "getLikedSongs S c w = Some (Inr (concat (map (\<lambda>p. map snd (items p)) pages)), ?c, w')"
      by (simp add: getLikedSongs_def Let_def)
  qed
  have n1: "next page = Some (''https://api.spotify.com/v1'' @ rest) \<longrightarrow> next_url page = Some rest"
    using next_url_absolute[of page rest] by blast
  have n2: "next page = None \<longrightarrow> next_url page = None"
    using next_url_null[of page] by blast
  show ?thesis
    by (intro conjI) (rule n1 n2 run retried)+
qed

theorem getLikedSongs_follows_pages_witness:
  "next demo_page1 = Some (''https://api.spotify.com/v1'' @ ''/me/tracks?offset=2&limit=50'') \<and>
   next_url demo_page1 = Some ''/me/tracks?offset=2&limit=50'' \<and>
   next demo_page2 = None \<and> next_url demo_page2 = None \<and>
   fst (ensureValidToken demo valid_client start) = Inr () \<and>
   answers_pages (saved_tracks demo) (fst (snd (ensureValidToken demo valid_client start)))
     ''/me/tracks?limit=50'' (remote (snd (snd (ensureValidToken demo valid_client start))))
     [demo_page1, demo_page2] \<and>
   (\<exists>c' w'. getLikedSongs demo valid_client start =
      Some (Inr (concat (map (\<lambda>p. map snd (items p)) [demo_page1, demo_page2])), c', w')) \<and>
   length (''/me/tracks?limit=50'' # following_paths [demo_page1, demo_page2]) =
     length [demo_page1, demo_page2] \<and>
   fetches_pages demo (fst (snd (ensureValidToken demo valid_client start))) ''/me/tracks?limit=50''
     (snd (snd (ensureValidToken demo valid_client start))) [demo_page1, demo_page2]
     (snd (get_page demo valid_client ''/me/tracks?offset=2&limit=50''
        (snd (get_page demo valid_client ''/me/tracks?limit=50'' start)))) \<and>
   getLikedSongs demo valid_client start =
     Some (Inr (concat (map (\<lambda>p. map snd (items p)) [demo_page1, demo_page2])),
           fst (snd (ensureValidToken demo valid_client start)),
           snd (get_page demo valid_client ''/me/tracks?offset=2&limit=50''
             (snd (get_page demo valid_client ''/me/tracks?limit=50'' start))))"
proof -
  let ?end = "snd (get_page demo valid_client ''/me/tracks?offset=2&limit=50''
        (snd (get_page demo valid_client ''/me/tracks?limit=50'' start)))"
  have h3: "fetches_pages demo (fst (snd (ensureValidToken demo valid_client start)))
     ''/me/tracks?limit=50'' (snd (snd (ensureValidToken demo valid_client start)))
     [demo_page1, demo_page2] ?end"
    by code_simp
  have a1: "next demo_page1 = Some (''https://api.spotify.com/v1'' @ ''/me/tracks?offset=2&limit=50'')"
    by (simp add: demo_page1_def)
  have a2: "next demo_page2 = None"
    by (simp add: demo_page2_def)
  have h1: "fst (ensureValidToken demo valid_client start) = Inr ()"
    by code_simp
  have h2: "answers_pages (saved_tracks demo) (fst (snd (ensureValidToken demo valid_client start)))
     ''/me/tracks?limit=50'' (remote (snd (snd (ensureValidToken demo valid_client start))))
     [demo_page1, demo_page2]"
    by code_simp
  note p1 = getLikedSongs_follows_pages[where page=demo_page1 and rest="''/me/tracks?offset=2&limit=50''"
      and S=demo and c=valid_client and w=start and pages="[demo_page1, demo_page2]"]
  note p2 = getLikedSongs_follows_pages[where page=demo_page2
      and S=demo and c=valid_client and w=start and pages="[demo_page1, demo_page2]"]
  from p1 a1 have b1: "next_url demo_page1 = Some ''/me/tracks?offset=2&limit=50''" by blast
  from p2 a2 have b2: "next_url demo_page2 = None" by blast
  from p1 h1 h2 have r: "(\<exists>c' w'. getLikedSongs demo valid_client start =
      Some (Inr (concat (map (\<lambda>p. map snd (items p)) [demo_page1, demo_page2])), c', w')) \<and>
   length (''/me/tracks?limit=50'' # following_paths [demo_page1, demo_page2]) =
     length [demo_page1, demo_page2]" by blast
  note p3 = getLikedSongs_follows_pages[where S=demo and c=valid_client and w=start
      and pages="[demo_page1, demo_page2]" and w'="?end"]
  from p3 h1 h3 have r': "getLikedSongs demo valid_client start =
     Some (Inr (concat (map (\<lambda>p. map snd (items p)) [demo_page1, demo_page2])),
           fst (snd (ensureValidToken demo valid_client start)), ?end)" by blast
  from a1 b1 a2 b2 h1 h2 r h3 r' show ?thesis by blast
qed

text \<open>
  The scenario of the specification on the small server: page 1 has two items and a
  cursor, page 2 has one item and no cursor; three songs come back from two requests.
\<close>

lemma getLikedSongs_two_pages:
  "getLikedSongs demo valid_client start =
     Some (Inr [''song1'', ''song2'', ''song3''], valid_client,
           \<lparr>events =
              [Http \<lparr>verb = GET, url = ''/me/tracks?limit=50'',
                     authorization = Some ''Bearer A'', body = NoBody\<rparr>,
               Http \<lparr>verb = GET, url = ''/me/tracks?offset=2&limit=50'',
                     authorization = Some ''Bearer A'', body = NoBody\<rparr>],
            remote = 2\<rparr>)"
  by code_simp

text \<open>
  When the first request of page 1 is rejected, the retry loop waits and repeats it: the
  same three songs come back from two retried requests, which are three requests.
\<close>

lemma getLikedSongs_retries_a_rejected_request:
  "map_option fst (getLikedSongs unsteady_demo valid_client start) =
     Some (Inr [''song1'', ''song2'', ''song3'']) \<and>
   map_option (\<lambda>r. map url (sent_requests (events (snd (snd r)))))
     (getLikedSongs unsteady_demo valid_client start) =
     Some [''/me/tracks?limit=50'', ''/me/tracks?limit=50'', ''/me/tracks?offset=2&limit=50''] \<and>
   map_option (\<lambda>r. sleeps (events (snd (snd r)))) (getLikedSongs unsteady_demo valid_client start) =
     Some [1000]"
  by code_simp

section \<open>The authorization URL\<close>

lemma hex_digit_mem: "hex_digit n \<in> set ''0123456789ABCDEF''"
  unfolding hex_digit_def by (rule nth_mem) simp

lemma urlencode_byte_chars:
  "x \<in> set (urlencode_byte c) \<Longrightarrow> x \<noteq> CHR ''&'' \<and> x \<noteq> CHR ''=''"
proof -
  assume x: "x \<in> set (urlencode_byte c)"
  have h: "hex_digit n \<noteq> CHR ''&'' \<and> hex_digit n \<noteq> CHR ''=''" for n
    using hex_digit_mem[of n] by auto
  show ?thesis
  proof (cases "c = CHR '' ''")
    case True
    with x show ?thesis by (simp add: urlencode_byte_def)
  next
    case False
    show ?thesis
    proof (cases "urlencoded_safe c")
      case True
      with False x have "x = c" by (simp add: urlencode_byte_def)
      with True show ?thesis by (auto simp: urlencoded_safe_def)
    next
      case unsafe: False
      with False x have "x = CHR ''%'' \<or> x = hex_digit (of_char c div 16) \<or> x = hex_digit (of_char c mod 16)"
        by (simp add: urlencode_byte_def)
      with h show ?thesis by auto
    qed
  qed
qed

lemma urlencode_chars: "x \<in> set (urlencode s) \<Longrightarrow> x \<noteq> CHR ''&'' \<and> x \<noteq> CHR ''=''"
  using urlencode_byte_chars by (auto simp: urlencode_def)

lemma split_on_no_sep: "sep \<notin> set x \<Longrightarrow> split_on sep x = [x]"
  by (induction x) auto

lemma split_on_append_sep:
  "sep \<notin> set x \<Longrightarrow> split_on sep (x @ sep # rest) = x # split_on sep rest"
  by (induction x) auto

lemma split_on_join:
  "xs \<noteq> [] \<Longrightarrow> \<forall>x \<in> set xs. sep \<notin> set x \<Longrightarrow> split_on sep (join_with [sep] xs) = xs"
proof (induction "[sep]" xs rule: join_with.induct)
  case 1
  then show ?case by simp
next
  case (2 x)
  then show ?case by (simp add: split_on_no_sep)
next
  case (3 x y ys)
  then show ?case by (simp add: split_on_append_sep)
qed

lemma takeWhile_key: "CHR ''='' \<notin> set k \<Longrightarrow> takeWhile (\<lambda>c. c \<noteq> CHR ''='') (k @ CHR ''='' # v) = k"
  by (induction k) auto

lemma query_keys_serialized:
  assumes "params \<noteq> []"
  shows "query_keys (''https://accounts.spotify.com/authorize?'' @ URLSearchParams_toString params) =
     map (\<lambda>(k, v). urlencode k) params"
proof -
  let ?parts = "map (\<lambda>(k, v). urlencode k @ ''='' @ urlencode v) params"
  have q: "drop 1 (dropWhile (\<lambda>c. c \<noteq> CHR ''?'')
             (''https://accounts.spotify.com/authorize?'' @ URLSearchParams_toString params)) =
           join_with ''&'' ?parts"
    by (simp add: URLSearchParams_toString_def)
  have ne: "?parts \<noteq> []" using assms by simp
  have clean: "\<forall>x \<in> set ?parts. CHR ''&'' \<notin> set x"
    using urlencode_chars by fastforce
  have "split_on CHR ''&'' (join_with [CHR ''&''] ?parts) = ?parts"
    by (rule split_on_join[OF ne clean])
  then have "query_keys (''https://accounts.spotify.com/authorize?'' @ URLSearchParams_toString params) =
      map (takeWhile (\<lambda>c. c \<noteq> CHR ''='')) ?parts"
    unfolding query_keys_def q by simp
  also have "\<dots> = map (\<lambda>(k, v). urlencode k) params"
  proof -
    have "\<And>k v. takeWhile (\<lambda>c. c \<noteq> CHR ''='') (urlencode k @ ''='' @ urlencode v) = urlencode k"
      using takeWhile_key urlencode_chars by (metis append_Cons append_Nil)
    then show ?thesis by (auto simp: comp_def split: prod.splits)
  qed
  finally show ?thesis .
qed

lemma urlencode_names:
  "urlencode ''client_id'' = ''client_id''" "urlencode ''response_type'' = ''response_type''"
  "urlencode ''redirect_uri'' = ''redirect_uri''" "urlencode ''scope'' = ''scope''"
  "urlencode ''state'' = ''state''"
  by (simp_all add: urlencode_def urlencode_byte_def urlencoded_safe_def)

lemma query_keys_generateAuthUrl:
  "query_keys (generateAuthUrl c state) =
     [''client_id'', ''response_type'', ''redirect_uri'', ''scope''] @
     (case state of None \<Rightarrow> [] | Some s \<Rightarrow> if s = [] then [] else [''state''])"
proof -
  have "auth_params (config c) state \<noteq> []" by (simp add: auth_params_def)
  from query_keys_serialized[OF this]
  show ?thesis
    by (simp add: generateAuthUrl_def auth_params_def urlencode_names split: option.splits)
qed

text \<open>
  Claim C10. The URL of \<^verbatim>\<open>generateAuthUrl\<close> has a query parameter named \<^verbatim>\<open>state\<close> exactly
  when the argument is a non-empty string; for the empty string the URL is the one of
  the call without argument. The URL is a function of the configuration and the argument
  alone: clients with the same configuration (whatever tokens they hold) get the same
  URL, and the function has no other result than the URL, so no state changes.
\<close>

theorem generateAuthUrl_state_parameter:
  "(''state'' \<in> set (query_keys (generateAuthUrl c state))) = (\<exists>s. state = Some s \<and> s \<noteq> []) \<and>
   generateAuthUrl c (Some []) = generateAuthUrl c None \<and>
   (config c = config c' \<longrightarrow> generateAuthUrl c state = generateAuthUrl c' state)"
proof -
  have 1: "(''state'' \<in> set (query_keys (generateAuthUrl c state))) = (\<exists>s. state = Some s \<and> s \<noteq> [])"
    by (cases state) (simp_all add: query_keys_generateAuthUrl)
  have 2: "generateAuthUrl c (Some []) = generateAuthUrl c None"
    by (simp add: generateAuthUrl_def auth_params_def)
  have 3: "config c = config c' \<longrightarrow> generateAuthUrl c state = generateAuthUrl c' state"
    by (simp add: generateAuthUrl_def)
  show ?thesis by (intro conjI) (rule 1 2 3)+
qed

theorem generateAuthUrl_state_parameter_witness:
  "config fresh_client = config (client_with (stored_tokens 5)) \<and>
   generateAuthUrl fresh_client (Some ''xyz'') =
     generateAuthUrl (client_with (stored_tokens 5)) (Some ''xyz'') \<and>
   ''state'' \<in> set (query_keys (generateAuthUrl fresh_client (Some ''xyz''))) \<and>
   ''state'' \<notin> set (query_keys (generateAuthUrl fresh_client (Some []))) \<and>
   ''state'' \<notin> set (query_keys (generateAuthUrl fresh_client None)) \<and>
   generateAuthUrl fresh_client (Some []) = generateAuthUrl fresh_client None"
proof -
  have h: "config fresh_client = config (client_with (stored_tokens 5))"
    by (simp add: fresh_client_def client_with_def)
  note t1 = generateAuthUrl_state_parameter[of fresh_client "Some ''xyz''" "client_with (stored_tokens 5)"]
  note t2 = generateAuthUrl_state_parameter[of fresh_client "Some []" fresh_client]
  note t3 = generateAuthUrl_state_parameter[of fresh_client None fresh_client]
  from t1 h have a: "generateAuthUrl fresh_client (Some ''xyz'') =
     generateAuthUrl (client_with (stored_tokens 5)) (Some ''xyz'')" by blast
  from t1[THEN conjunct1]
  have b: "''state'' \<in> set (query_keys (generateAuthUrl fresh_client (Some ''xyz'')))" by simp
  from t2[THEN conjunct1]
  have c: "''state'' \<notin> set (query_keys (generateAuthUrl fresh_client (Some [])))" by simp
  from t3[THEN conjunct1]
  have d: "''state'' \<notin> set (query_keys (generateAuthUrl fresh_client None))" by simp
  from t2 have e: "generateAuthUrl fresh_client (Some []) = generateAuthUrl fresh_client None" by blast
  from h a b c d e show ?thesis by blast
qed

text \<open>Two URLs for the example configuration, whose client id contains a space.\<close>

lemma generateAuthUrl_examples:
  "generateAuthUrl fresh_client (Some ''a b&c'') =
     ''https://accounts.spotify.com/authorize?client_id=my+client&response_type=code'' @
     ''&redirect_uri=http%3A%2F%2Flocalhost%3A3000%2Fcallback'' @
     ''&scope=user-library-read+playlist-modify-public+playlist-modify-private'' @
     ''&state=a+b%26c''"
  "generateAuthUrl fresh_client None =
     ''https://accounts.spotify.com/authorize?client_id=my+client&response_type=code'' @
     ''&redirect_uri=http%3A%2F%2Flocalhost%3A3000%2Fcallback'' @
     ''&scope=user-library-read+playlist-modify-public+playlist-modify-private''"
  by code_simp+

end
